theory Spec2Isabelle
  imports Main
begin

section \<open>Python values used by the firewall core\<close>

text \<open>
  A \<open>bytes\<close> object is a list of 8-bit characters. A \<open>str\<close> is modelled by the same
  type: a list of code points below 256. This is exact for text decoded as iso-8859-1
  (the HTTP path) and for ASCII names; the utf-8 decoder used on the TLS server name is
  passed to the functions that need it.
\<close>

type_synonym bytes = string
type_synonym pystr = string

datatype py_error = IndexError | StructError | ValueError | TypeError | OSError | SqliteError

definition startswith :: "string \<Rightarrow> string \<Rightarrow> bool" where
  "startswith s p = (take (length p) s = p)"

definition endswith :: "string \<Rightarrow> string \<Rightarrow> bool" where
  "endswith s p = (length p \<le> length s \<and> drop (length s - length p) s = p)"

text \<open>\<open>str.lower()\<close> on code points below 256: A-Z and the Latin-1 capitals
  (U+00C0..U+00DE without the multiplication sign U+00D7) move up by 32.\<close>

definition str_lower_char :: "char \<Rightarrow> char" where
  "str_lower_char c =
     (let n = (of_char c :: nat)
      in if (65 \<le> n \<and> n \<le> 90) \<or> (192 \<le> n \<and> n \<le> 222 \<and> n \<noteq> 215)
         then char_of (n + 32) else c)"

definition str_lower :: "pystr \<Rightarrow> pystr" where
  "str_lower s = map str_lower_char s"

text \<open>\<open>bytes.lower()\<close> touches ASCII letters only.\<close>

definition bytes_lower_char :: "char \<Rightarrow> char" where
  "bytes_lower_char c =
     (let n = (of_char c :: nat)
      in if 65 \<le> n \<and> n \<le> 90 then char_of (n + 32) else c)"

definition bytes_lower :: "bytes \<Rightarrow> bytes" where
  "bytes_lower s = map bytes_lower_char s"

text \<open>\<open>s.lstrip(cs)\<close> and \<open>s.rstrip(cs)\<close> remove every leading (trailing) character that
  occurs in \<open>cs\<close>; the argument is a set of characters, not a prefix.\<close>

definition lstrip_chars :: "string \<Rightarrow> string \<Rightarrow> string" where
  "lstrip_chars cs s = dropWhile (\<lambda>c. c \<in> set cs) s"

definition rstrip_chars :: "string \<Rightarrow> string \<Rightarrow> string" where
  "rstrip_chars cs s = rev (dropWhile (\<lambda>c. c \<in> set cs) (rev s))"

text \<open>\<open>str.isspace()\<close> on code points below 256, and \<open>str.strip()\<close>.\<close>

definition is_space :: "char \<Rightarrow> bool" where
  "is_space c =
     (let n = (of_char c :: nat)
      in (9 \<le> n \<and> n \<le> 13) \<or> (28 \<le> n \<and> n \<le> 32) \<or> n = 133 \<or> n = 160)"

definition str_strip :: "pystr \<Rightarrow> pystr" where
  "str_strip s = rev (dropWhile is_space (rev (dropWhile is_space s)))"

text \<open>\<open>s.split(c)\<close> for a one-character separator.\<close>

fun str_split :: "char \<Rightarrow> string \<Rightarrow> string list" where
  "str_split c [] = [[]]"
| "str_split c (x # xs) =
     (if x = c then [] # str_split c xs
      else (case str_split c xs of
              [] \<Rightarrow> [[x]]
            | y # ys \<Rightarrow> (x # y) # ys))"

text \<open>\<open>s.split(c, 1)\<close>: at most one split, at the first occurrence.\<close>

definition str_split1 :: "char \<Rightarrow> string \<Rightarrow> string list" where
  "str_split1 c s =
     (if c \<in> set s
      then [takeWhile (\<lambda>x. x \<noteq> c) s, tl (dropWhile (\<lambda>x. x \<noteq> c) s)]
      else [s])"

text \<open>\<open>text.split("\r\n")\<close>.\<close>

fun split_crlf :: "string \<Rightarrow> string list" where
  "split_crlf [] = [[]]"
| "split_crlf [x] = [[x]]"
| "split_crlf (x # y # xs) =
     (if x = CHR 0x0D \<and> y = CHR 0x0A then [] # split_crlf xs
      else (case split_crlf (y # xs) of
              [] \<Rightarrow> [[x]]
            | l # ls \<Rightarrow> (x # l) # ls))"

text \<open>\<open>sub in s\<close> on byte strings.\<close>

fun contains :: "bytes \<Rightarrow> bytes \<Rightarrow> bool" where
  "contains [] sub = (sub = [])"
| "contains (x # xs) sub = (startswith (x # xs) sub \<or> contains xs sub)"

text \<open>\<open>xs[i]\<close> raises IndexError out of range (indices here are never negative).\<close>

definition index :: "'a list \<Rightarrow> nat \<Rightarrow> py_error + 'a" where
  "index xs i = (if i < length xs then Inr (xs ! i) else Inl IndexError)"

text \<open>\<open>xs[a:b]\<close> never raises: the slice is clamped to the list.\<close>

definition slice :: "'a list \<Rightarrow> nat \<Rightarrow> nat \<Rightarrow> 'a list" where
  "slice xs a b = take (b - a) (drop a xs)"

text \<open>\<open>s.encode()\<close>: utf-8 of code points below 256.\<close>

definition encode_char :: "char \<Rightarrow> bytes" where
  "encode_char c =
     (let n = (of_char c :: nat)
      in if n < 128 then [c] else [char_of (192 + n div 64), char_of (128 + n mod 64)])"

definition str_encode :: "pystr \<Rightarrow> bytes" where
  "str_encode s = concat (map encode_char s)"

section \<open>DNS proxy (core/dns\_proxy.py)\<close>

text \<open>The blocked-domain cache is a Python set; it is kept as a list, in the order in
  which the set happens to be iterated.\<close>

text \<open>\<open>DNSProxy._is_blocked\<close>: the loop over the cache.\<close>

fun is_blocked_loop :: "pystr \<Rightarrow> pystr list \<Rightarrow> bool" where
  "is_blocked_loop qname [] = False"
| "is_blocked_loop qname (d # ds) =
     (if d = [] then is_blocked_loop qname ds
      else (let check = lstrip_chars ''*.'' (str_lower d)
            in if qname = check \<or> endswith qname (''.'' @ check) then True
               else is_blocked_loop qname ds))"

definition is_blocked :: "pystr list \<Rightarrow> pystr \<Rightarrow> bool" where
  "is_blocked cache qname = is_blocked_loop (str_lower (rstrip_chars ''.'' qname)) cache"

text \<open>The matching rule as the specification words it: strip one leading \<open>"*."\<close>
  prefix from the cached domain, then compare for equality or a dotted suffix.\<close>

definition strip_wildcard_prefix :: "pystr \<Rightarrow> pystr" where
  "strip_wildcard_prefix d = (if startswith d ''*.'' then drop 2 d else d)"

definition spec_is_blocked :: "pystr list \<Rightarrow> pystr \<Rightarrow> bool" where
  "spec_is_blocked cache qname =
     (let q = str_lower (rstrip_chars ''.'' qname)
      in list_ex (\<lambda>d. q = strip_wildcard_prefix d
                      \<or> endswith q (''.'' @ strip_wildcard_prefix d)) cache)"


text \<open>A cache entry in normal form: not empty, lowercase, and with no star or dot in
  front, apart from one leading \<open>"*."\<close>.\<close>

definition normal_entry :: "pystr \<Rightarrow> bool" where
  "normal_entry d =
     (d \<noteq> [] \<and> str_lower d = d
      \<and> (strip_wildcard_prefix d = [] \<or> hd (strip_wildcard_prefix d) \<notin> set ''*.''))"

text \<open>The firewall database: the authoritative \<open>blocked_domains\<close> table and the derived
  \<open>blocked_ips\<close> table with its migrated columns. \<open>expires_at\<close> is a UTC time in seconds.\<close>

record blocked_ip_row =
  ip :: pystr
  domain :: "pystr option"
  expires_at :: "nat option"
  reason :: "pystr option"

record firewall_db =
  blocked_domains_tbl :: "pystr list"
  blocked_ips_tbl :: "blocked_ip_row list"

text \<open>Opening and querying a database either works or raises.\<close>

definition sqlite3_connect :: "bool \<Rightarrow> 'db \<Rightarrow> py_error + 'db" where
  "sqlite3_connect db_ok db = (if db_ok then Inr db else Inl SqliteError)"

text \<open>\<open>DNSProxy._refresh_cache\<close>. The flag \<open>db_ok\<close> says whether sqlite3 can open and
  query the database during this call; on an error the cache keeps its old value.\<close>

definition refresh_cache :: "bool \<Rightarrow> firewall_db \<Rightarrow> pystr list \<Rightarrow> pystr list" where
  "refresh_cache db_ok db cache =
     (case sqlite3_connect db_ok db of
        Inl e \<Rightarrow> cache
      | Inr d \<Rightarrow> remdups (map (\<lambda>r. str_strip (str_lower r))
                              (filter (\<lambda>r. r \<noteq> []) (blocked_domains_tbl d))))"

text \<open>The dnslib objects, with the header fields this program reads or sets.
  \<open>DNSRecord(header)\<close> built without questions or answers has empty sections.\<close>

datatype rcode = NOERROR | FORMERR | SERVFAIL | NXDOMAIN | NOTIMP | REFUSED

record dns_header =
  header_id :: nat
  qr :: nat
  aa :: nat
  ra :: nat
  rcode :: rcode

record dns_record =
  header :: dns_header
  questions :: "pystr list"
  rr :: "bytes list"

text \<open>\<open>str(request.q.qname)\<close>: the name of the first question (the root name when the
  question section is empty).\<close>

definition q_qname :: "dns_record \<Rightarrow> pystr" where
  "q_qname request = (case questions request of [] \<Rightarrow> ''.'' | n # ns \<Rightarrow> n)"

datatype dns_send = SendRecord dns_record | SendRaw bytes

text \<open>\<open>DNSProxy._handle_query\<close>. \<open>parse\<close> is \<open>DNSRecord.parse\<close> (\<open>None\<close> when it raises),
  \<open>forward_query\<close> is the round trip to the upstream resolver (\<open>None\<close> on timeout or
  error). The result is the datagram sent back to the client, if any.\<close>

definition handle_query ::
  "(bytes \<Rightarrow> dns_record option) \<Rightarrow> (bytes \<Rightarrow> bytes option) \<Rightarrow> pystr list \<Rightarrow> bytes
     \<Rightarrow> dns_send option" where
  "handle_query parse forward_query cache data =
     (case parse data of
        None \<Rightarrow> None
      | Some request \<Rightarrow>
          (let qname = rstrip_chars ''.'' (q_qname request)
           in if is_blocked cache qname
              then Some (SendRecord
                     \<lparr>header = \<lparr>header_id = header_id (header request), qr = 1, aa = 1,
                                 ra = 1, rcode = NXDOMAIN\<rparr>,
                      questions = [], rr = []\<rparr>)
              else (case forward_query data of
                      None \<Rightarrow> None
                    | Some reply \<Rightarrow> if reply \<noteq> [] then Some (SendRaw reply) else None)))"

section \<open>Blocklist store and resolver (core/firewall\_thread.py)\<close>

text \<open>\<open>resolve_domain_to_ips\<close>. \<open>getaddrinfo\<close> is the OS resolver: the IPv4 addresses of
  a name, or \<open>None\<close> when the lookup raises. The result is a set turned into a list.\<close>

definition variants :: "pystr \<Rightarrow> pystr list" where
  "variants d =
     [d, ''www.'' @ d, ''m.'' @ d, ''api.'' @ d, ''cdn.'' @ d, ''video.'' @ d,
      ''static.'' @ d, ''media.'' @ d]"

definition try_resolve :: "(pystr \<Rightarrow> pystr list option) \<Rightarrow> pystr \<Rightarrow> pystr list" where
  "try_resolve getaddrinfo d = (case getaddrinfo d of None \<Rightarrow> [] | Some infos \<Rightarrow> infos)"

definition resolve_domain_to_ips :: "(pystr \<Rightarrow> pystr list option) \<Rightarrow> pystr \<Rightarrow> pystr list" where
  "resolve_domain_to_ips getaddrinfo d =
     remdups (concat (map (try_resolve getaddrinfo) (variants d)))"

text \<open>SQL statements on \<open>blocked_ips\<close>, whose key is \<open>ip\<close>.\<close>

definition insert_or_ignore :: "blocked_ip_row \<Rightarrow> blocked_ip_row list \<Rightarrow> blocked_ip_row list" where
  "insert_or_ignore r tbl = (if ip r \<in> set (map ip tbl) then tbl else tbl @ [r])"

definition insert_or_replace :: "blocked_ip_row \<Rightarrow> blocked_ip_row list \<Rightarrow> blocked_ip_row list" where
  "insert_or_replace r tbl = filter (\<lambda>x. ip x \<noteq> ip r) tbl @ [r]"

definition ip_only_row :: "pystr \<Rightarrow> blocked_ip_row" where
  "ip_only_row a = \<lparr>ip = a, domain = None, expires_at = None, reason = None\<rparr>"

text \<open>The process state shared by the module-level functions: the firewall database and
  the reload event \<open>domain_update_event\<close>.\<close>

record store =
  db :: firewall_db
  domain_update_event :: bool

text \<open>\<open>sync_blocked_ips\<close>: one transaction that empties \<open>blocked_ips\<close> and inserts every
  resolved address; any sqlite error leaves the database as it was.\<close>

definition sync_blocked_ips ::
  "(pystr \<Rightarrow> pystr list option) \<Rightarrow> bool \<Rightarrow> store \<Rightarrow> store" where
  "sync_blocked_ips getaddrinfo db_ok st =
     (case sqlite3_connect db_ok (db st) of
        Inl e \<Rightarrow> st
      | Inr d \<Rightarrow>
          (let domains = blocked_domains_tbl d;
               all_ips = remdups (concat (map (resolve_domain_to_ips getaddrinfo) domains));
               tbl = foldl (\<lambda>t a. insert_or_ignore (ip_only_row a) t) [] all_ips
           in st\<lparr>db := d\<lparr>blocked_ips_tbl := tbl\<rparr>\<rparr>))"

text \<open>\<open>add_blocked_domain\<close> and \<open>remove_blocked_domain\<close>: change the authoritative table,
  resync, then set the reload event.\<close>

definition add_blocked_domain ::
  "(pystr \<Rightarrow> pystr list option) \<Rightarrow> bool \<Rightarrow> pystr \<Rightarrow> store \<Rightarrow> store" where
  "add_blocked_domain getaddrinfo db_ok dname st =
     (case sqlite3_connect db_ok (db st) of
        Inl e \<Rightarrow> st
      | Inr d \<Rightarrow>
          (let tbl = blocked_domains_tbl d;
               tbl' = (if str_lower dname \<in> set tbl then tbl else tbl @ [str_lower dname]);
               st' = sync_blocked_ips getaddrinfo db_ok (st\<lparr>db := d\<lparr>blocked_domains_tbl := tbl'\<rparr>\<rparr>)
           in st'\<lparr>domain_update_event := True\<rparr>))"

definition remove_blocked_domain ::
  "(pystr \<Rightarrow> pystr list option) \<Rightarrow> bool \<Rightarrow> pystr \<Rightarrow> store \<Rightarrow> store" where
  "remove_blocked_domain getaddrinfo db_ok dname st =
     (case sqlite3_connect db_ok (db st) of
        Inl e \<Rightarrow> st
      | Inr d \<Rightarrow>
          (let tbl' = filter (\<lambda>x. x \<noteq> str_lower dname) (blocked_domains_tbl d);
               st' = sync_blocked_ips getaddrinfo db_ok (st\<lparr>db := d\<lparr>blocked_domains_tbl := tbl'\<rparr>\<rparr>)
           in st'\<lparr>domain_update_event := True\<rparr>))"


definition get_blocked_ips :: "bool \<Rightarrow> bool \<Rightarrow> firewall_db \<Rightarrow> py_error + pystr list" where
  "get_blocked_ips fs_ok db_ok d =
     (if \<not> fs_ok then Inl OSError
      else (case sqlite3_connect db_ok d of
              Inl e \<Rightarrow> Inr []
            | Inr c \<Rightarrow> Inr (remdups (map ip (blocked_ips_tbl c)))))"


section \<open>Packet parsing helpers (core/firewall\_thread.py)\<close>

text \<open>\<open>extract_http_host\<close>. The body of the \<open>try\<close> block returns the exception it
  raises as a value; the function itself turns every exception into \<open>None\<close>.
  Decoding as iso-8859-1 maps each byte to the code point of the same number.\<close>

definition http_methods :: "bytes list" where
  "http_methods = [''GET '', ''POST '', ''HEAD '', ''PUT '', ''OPTIONS '']"

fun host_line_loop :: "pystr list \<Rightarrow> py_error + pystr option" where
  "host_line_loop [] = Inr None"
| "host_line_loop (line # lines) =
     (if startswith (str_lower line) ''host:''
      then (case index (str_split1 CHR '':'' line) 1 of
              Inl e \<Rightarrow> Inl e
            | Inr v \<Rightarrow>
                (let host = str_strip v
                 in (case index (str_split CHR '':'' host) 0 of
                       Inl e \<Rightarrow> Inl e
                     | Inr h \<Rightarrow> Inr (Some (str_lower h)))))
      else host_line_loop lines)"

definition extract_http_host_body :: "bytes \<Rightarrow> py_error + pystr option" where
  "extract_http_host_body payload =
     (if payload = [] then Inr None
      else if \<not> list_ex (startswith payload) http_methods then Inr None
      else host_line_loop (split_crlf payload))"

definition extract_http_host :: "bytes \<Rightarrow> pystr option" where
  "extract_http_host payload =
     (case extract_http_host_body payload of Inl e \<Rightarrow> None | Inr r \<Rightarrow> r)"

text \<open>\<open>struct.unpack("!H", b)[0]\<close>: a big-endian 16-bit number from exactly two bytes.\<close>

definition unpack_H :: "bytes \<Rightarrow> py_error + nat" where
  "unpack_H b =
     (case b of
        [h, l] \<Rightarrow> Inr (256 * of_char h + of_char l)
      | _ \<Rightarrow> Inl StructError)"

text \<open>\<open>extract_tls_sni\<close>: the loop over the server-name list, the loop over the
  extensions, and the prefix of the ClientHello. \<open>dec\<close> is
  \<open>bytes.decode("utf-8", errors="ignore")\<close>.\<close>

function sn_loop :: "(bytes \<Rightarrow> pystr) \<Rightarrow> bytes \<Rightarrow> nat \<Rightarrow> nat \<Rightarrow> py_error + pystr option" where
  "sn_loop dec payload sn_end offset =
     (if offset + 3 \<le> sn_end
      then (case index payload offset of
              Inl e \<Rightarrow> Inl e
            | Inr name_type \<Rightarrow>
                (case unpack_H (slice payload (offset + 1) (offset + 3)) of
                   Inl e \<Rightarrow> Inl e
                 | Inr name_len \<Rightarrow>
                     (if offset + 3 + name_len > sn_end then Inr None
                      else if name_type = CHR 0x00
                      then (let server_name = dec (slice payload (offset + 3) (offset + 3 + name_len))
                            in (case index (str_split CHR '':'' server_name) 0 of
                                  Inl e \<Rightarrow> Inl e
                                | Inr h \<Rightarrow> Inr (Some (str_lower h))))
                      else sn_loop dec payload sn_end (offset + 3 + name_len))))
      else Inr None)"
  by pat_completeness auto
termination
  by (relation "measure (\<lambda>(dec, payload, sn_end, offset). sn_end - offset)") auto

function ext_loop :: "(bytes \<Rightarrow> pystr) \<Rightarrow> bytes \<Rightarrow> nat \<Rightarrow> nat \<Rightarrow> py_error + pystr option" where
  "ext_loop dec payload end_ext offset =
     (if offset + 4 \<le> end_ext
      then (case unpack_H (slice payload offset (offset + 2)) of
              Inl e \<Rightarrow> Inl e
            | Inr ext_type \<Rightarrow>
                (case unpack_H (slice payload (offset + 2) (offset + 4)) of
                   Inl e \<Rightarrow> Inl e
                 | Inr ext_size \<Rightarrow>
                     (if ext_type = 0
                      then (if offset + 4 + 2 > end_ext then Inr None
                            else (case unpack_H (slice payload (offset + 4) (offset + 4 + 2)) of
                                    Inl e \<Rightarrow> Inl e
                                  | Inr sn_list_len \<Rightarrow>
                                      sn_loop dec payload (offset + 4 + 2 + sn_list_len)
                                        (offset + 4 + 2)))
                      else ext_loop dec payload end_ext (offset + 4 + ext_size))))
      else Inr None)"
  by pat_completeness auto
termination
  by (relation "measure (\<lambda>(dec, payload, end_ext, offset). end_ext - offset)") auto

definition extract_tls_sni_body :: "(bytes \<Rightarrow> pystr) \<Rightarrow> bytes \<Rightarrow> py_error + pystr option" where
  "extract_tls_sni_body dec payload =
     (if length payload < 5 then Inr None
      else (case index payload 0 of
        Inl e \<Rightarrow> Inl e
      | Inr content_type \<Rightarrow>
      if content_type \<noteq> CHR 0x16 then Inr None
      else if length payload < 6 then Inr None
      else (case index payload 5 of
        Inl e \<Rightarrow> Inl e
      | Inr handshake_type \<Rightarrow>
      if handshake_type \<noteq> CHR 0x01 then Inr None
      else if length payload < 5 + 4 + 34 then Inr None
      else if length payload < 5 + 4 + 34 + 1 then Inr None
      else (case index payload (5 + 4 + 34) of
        Inl e \<Rightarrow> Inl e
      | Inr sid_len \<Rightarrow>
      (let offset = 5 + 4 + 34 + 1 + of_char sid_len
       in if length payload < offset + 2 then Inr None
          else (case unpack_H (slice payload offset (offset + 2)) of
            Inl e \<Rightarrow> Inl e
          | Inr cs_len \<Rightarrow>
          (let offset = offset + 2 + cs_len
           in if length payload < offset + 1 then Inr None
              else (case index payload offset of
                Inl e \<Rightarrow> Inl e
              | Inr comp_len \<Rightarrow>
              (let offset = offset + 1 + of_char comp_len
               in if length payload < offset + 2 then Inr None
                  else (case unpack_H (slice payload offset (offset + 2)) of
                    Inl e \<Rightarrow> Inl e
                  | Inr ext_len \<Rightarrow>
                  (let offset = offset + 2;
                       end_ext = offset + ext_len
                   in if end_ext > length payload then Inr None
                      else ext_loop dec payload end_ext offset)))))))))))"

definition extract_tls_sni :: "(bytes \<Rightarrow> pystr) \<Rightarrow> bytes \<Rightarrow> pystr option" where
  "extract_tls_sni dec payload =
     (case extract_tls_sni_body dec payload of Inl e \<Rightarrow> None | Inr r \<Rightarrow> r)"


section \<open>The filter thread (core/firewall\_thread.py, class FirewallThread)\<close>

text \<open>A row fetched from sqlite is a tuple of column values.\<close>

datatype sql_value = Null | Integer int | Text pystr

type_synonym sql_row = "sql_value list"

text \<open>The fields of \<open>FirewallThread\<close> that decide what happens to a packet. Log output
  and the per-address counters that only feed the log are left out.\<close>

record firewall_thread =
  domains :: "pystr list"
  blocked_ips :: "pystr list"
  app_signatures :: "sql_row list"
  critical_ips :: "pystr list"

definition TEMP_BLOCK_TTL_SECONDS :: nat where
  "TEMP_BLOCK_TTL_SECONDS = 300"

definition DOH_HOST_FRAGMENTS :: "bytes list" where
  "DOH_HOST_FRAGMENTS =
     [''dns.google'', ''cloudflare-dns.com'', ''mozilla.cloudflare-dns.com'', ''one.one.one.one'']"

text \<open>The critical addresses built in \<open>__init__\<close>; \<open>gw\<close> is the default IPv4 gateway
  found by netifaces, if any.\<close>

definition critical_ips_init :: "pystr option \<Rightarrow> pystr list" where
  "critical_ips_init gw =
     [''127.0.0.1'', ''0.0.0.0'', ''localhost'']
     @ (case gw of None \<Rightarrow> [] | Some g \<Rightarrow> if g \<noteq> [] then [g] else [])
     @ [''8.8.8.8'', ''1.1.1.1'', ''9.9.9.9'', ''208.67.222.222'']"


text \<open>\<open>_resolve_and_store_ips\<close>: an exception of the resolver leaves the transaction
  uncommitted.\<close>

definition resolve_and_store_ips ::
  "(pystr \<Rightarrow> pystr list option) \<Rightarrow> bool \<Rightarrow> bool \<Rightarrow> pystr
     \<Rightarrow> firewall_thread \<times> firewall_db \<Rightarrow> firewall_thread \<times> firewall_db" where
  "resolve_and_store_ips getaddrinfo fs_ok db_ok domain_hit sd =
     (case sd of (self, d) \<Rightarrow>
       (case sqlite3_connect db_ok d of
          Inl e \<Rightarrow> (self, d)
        | Inr c \<Rightarrow>
            (case getaddrinfo domain_hit of
               None \<Rightarrow> (self, d)
             | Some resolved \<Rightarrow>
                 (let d' = c\<lparr>blocked_ips_tbl :=
                              foldl (\<lambda>t a. insert_or_ignore (ip_only_row a) t)
                                (blocked_ips_tbl c) resolved\<rparr>
                  in if resolved \<noteq> []
                     then (case get_blocked_ips fs_ok db_ok d' of
                             Inl e \<Rightarrow> (self, d')
                           | Inr ips \<Rightarrow> (self\<lparr>blocked_ips := ips\<rparr>, d'))
                     else (self, d')))))"

text \<open>\<open>_add_temporary_block_ip\<close>; \<open>now\<close> is the UTC clock in seconds.\<close>

definition add_temporary_block_ip ::
  "bool \<Rightarrow> bool \<Rightarrow> nat \<Rightarrow> pystr \<Rightarrow> pystr \<Rightarrow> nat
     \<Rightarrow> firewall_thread \<times> firewall_db \<Rightarrow> firewall_thread \<times> firewall_db" where
  "add_temporary_block_ip fs_ok db_ok now a domain_hit ttl_seconds sd =
     (case sd of (self, d) \<Rightarrow>
       (if a = [] then (self, d)
        else if a \<in> set (critical_ips self) then (self, d)
        else (case sqlite3_connect db_ok d of
                Inl e \<Rightarrow> (self, d)
              | Inr c \<Rightarrow>
                  (let d' = c\<lparr>blocked_ips_tbl :=
                               insert_or_replace
                                 \<lparr>ip = a, domain = Some domain_hit,
                                  expires_at = Some (now + ttl_seconds),
                                  reason = Some ''auto-temp''\<rparr>
                                 (blocked_ips_tbl c)\<rparr>
                   in (case get_blocked_ips fs_ok db_ok d' of
                         Inl e \<Rightarrow> (self, d')
                       | Inr ips \<Rightarrow> (self\<lparr>blocked_ips := ips\<rparr>, d'))))))"

text \<open>The attributes of a captured packet as the loop reads them. The \<open>protocol\<close>
  attribute of a \<open>pydivert.Packet\<close> is a pair: the IP protocol number and the offset of
  the transport header (both \<open>None\<close> for a packet that cannot be parsed).
  \<open>ProtocolMember\<close> is the other kind of value the comparison below can meet, a member of
  the enumeration \<open>pydivert.Protocol\<close>; no captured packet carries one.\<close>

datatype protocol = TCP | UDP | ICMP

datatype protocol_attr = ProtocolMember protocol | ProtocolTuple "nat option" "nat option"

record packet =
  dst_addr :: "pystr option"
  dst_port :: "nat option"
  protocol :: "protocol_attr option"
  payload :: bytes

text \<open>\<open>protocol == pydivert.Protocol.UDP\<close>: a tuple is never equal to a member of the
  enumeration, and the comparison does not raise, so the \<open>except\<close> branch with the
  string search is never taken. Without the attribute \<open>is_udp\<close> is false.\<close>

definition equals_Protocol_UDP :: "protocol_attr \<Rightarrow> bool" where
  "equals_Protocol_UDP a =
     (case a of
        ProtocolMember p \<Rightarrow> p = UDP
      | ProtocolTuple number offset \<Rightarrow> False)"

definition is_udp :: "packet \<Rightarrow> bool" where
  "is_udp pkt = (case protocol pkt of None \<Rightarrow> False | Some a \<Rightarrow> equals_Protocol_UDP a)"

text \<open>Truth value of an optional string, and \<open>a or b\<close> on two of them.\<close>

definition truthy :: "pystr option \<Rightarrow> bool" where
  "truthy v = (case v of None \<Rightarrow> False | Some s \<Rightarrow> s \<noteq> [])"

definition py_or :: "pystr option \<Rightarrow> pystr option \<Rightarrow> pystr option" where
  "py_or a b = (if truthy a then a else b)"

text \<open>The two loops over \<open>self.domains\<close>: the host match and the substring scan.\<close>

fun host_match_loop :: "pystr \<Rightarrow> pystr list \<Rightarrow> pystr option" where
  "host_match_loop host [] = None"
| "host_match_loop host (d # ds) =
     (if host = d \<or> endswith host (''.'' @ d) then Some d else host_match_loop host ds)"

fun payload_scan_loop :: "bytes \<Rightarrow> pystr list \<Rightarrow> pystr option" where
  "payload_scan_loop low_payload [] = None"
| "payload_scan_loop low_payload (d # ds) =
     (if contains low_payload (str_encode d) then Some d
      else payload_scan_loop low_payload ds)"

text \<open>Steps 3 and 4 of the loop body: the extracted host and the resulting
  \<open>domain_hit\<close>. The scan runs whenever \<open>domain_hit\<close> is still false.\<close>

definition extract_host :: "(bytes \<Rightarrow> pystr) \<Rightarrow> bytes \<Rightarrow> pystr option" where
  "extract_host dec pl = py_or (extract_http_host pl) (extract_tls_sni dec pl)"

definition host_stage :: "pystr option \<Rightarrow> pystr list \<Rightarrow> pystr option" where
  "host_stage host ds = (if truthy host then host_match_loop (the host) ds else None)"

definition scan_stage :: "pystr option \<Rightarrow> bytes \<Rightarrow> pystr list \<Rightarrow> pystr option" where
  "scan_stage domain_hit pl ds =
     (if \<not> truthy domain_hit
      then (case payload_scan_loop (bytes_lower pl) ds of
              None \<Rightarrow> domain_hit
            | Some d \<Rightarrow> Some d)
      else domain_hit)"

text \<open>The loop over the application signatures. Each row is unpacked into five names;
  a row with another number of columns raises ValueError. \<open>fnm\<close> is
  \<open>fnmatch.fnmatch\<close>.\<close>

fun app_match_loop ::
  "(pystr \<Rightarrow> pystr \<Rightarrow> bool) \<Rightarrow> pystr \<Rightarrow> sql_row list \<Rightarrow> py_error + (sql_value \<times> pystr) option" where
  "app_match_loop fnm host [] = Inr None"
| "app_match_loop fnm host (row # rows) =
     (case row of
        [u, app_name, pattern, ip_range, proto] \<Rightarrow>
          (case pattern of
             Null \<Rightarrow> app_match_loop fnm host rows
           | Integer n \<Rightarrow> if n = 0 then app_match_loop fnm host rows else Inl TypeError
           | Text p \<Rightarrow> if p \<noteq> [] \<and> fnm host p then Inr (Some (app_name, p))
                       else app_match_loop fnm host rows)
      | _ \<Rightarrow> Inl ValueError)"

text \<open>\<open>get_all_signatures\<close> (db/app\_signatures.py) selects six columns.\<close>

record app_signature =
  sig_id :: int
  app_name :: sql_value
  pattern :: sql_value
  ip_range :: sql_value
  sig_protocol :: sql_value
  domain_pattern :: sql_value

definition get_all_signatures :: "app_signature list \<Rightarrow> sql_row list" where
  "get_all_signatures tbl =
     map (\<lambda>r. [Integer (sig_id r), app_name r, pattern r, ip_range r, sig_protocol r,
                domain_pattern r]) tbl"

text \<open>What the loop body of \<open>run\<close> does with one received packet. \<open>Raised\<close> is an
  exception that reaches the handler of the loop: the packet is not sent on.\<close>

datatype drop_reason = BlockedIP | Quic | DoH | BlockedDomain pystr | AppBlock

datatype verdict = Reinject | Drop drop_reason | Raised py_error

definition process_packet ::
  "(bytes \<Rightarrow> pystr) \<Rightarrow> (pystr \<Rightarrow> pystr \<Rightarrow> bool) \<Rightarrow> bool \<Rightarrow> bool \<Rightarrow> nat \<Rightarrow> packet
     \<Rightarrow> firewall_thread \<times> firewall_db \<Rightarrow> verdict \<times> firewall_thread \<times> firewall_db" where
  "process_packet dec fnm fs_ok db_ok now pkt sd =
     (case sd of (self, d) \<Rightarrow>
      (let dst_ip = (case dst_addr pkt of None \<Rightarrow> [] | Some a \<Rightarrow> a)
       in if dst_ip \<noteq> [] \<and> dst_ip \<in> set (blocked_ips self) then (Drop BlockedIP, self, d)
          else
          (if is_udp pkt \<and> dst_port pkt = Some 443 then (Drop Quic, self, d)
              else
              (let host = extract_host dec (payload pkt);
                   domain_hit = scan_stage (host_stage host (domains self)) (payload pkt)
                                  (domains self)
               in if list_ex (contains (bytes_lower (payload pkt))) DOH_HOST_FRAGMENTS
                  then (Drop DoH, self, d)
                  else if truthy domain_hit
                  then (Drop (BlockedDomain (the domain_hit)),
                        (if dst_ip \<noteq> []
                         then add_temporary_block_ip fs_ok db_ok now dst_ip (the domain_hit)
                                TEMP_BLOCK_TTL_SECONDS (self, d)
                         else (self, d)))
                  else (case (if truthy host
                              then app_match_loop fnm (the host) (app_signatures self)
                              else Inr None) of
                          Inl e \<Rightarrow> (Raised e, self, d)
                        | Inr None \<Rightarrow> (Reinject, self, d)
                        | Inr (Some (name, pat)) \<Rightarrow>
                            (Drop AppBlock,
                             (if dst_ip \<noteq> []
                              then add_temporary_block_ip fs_ok db_ok now dst_ip pat
                                     TEMP_BLOCK_TTL_SECONDS (self, d)
                              else (self, d))))))))"


section \<open>Credentials (core/security.py)\<close>

text \<open>\<open>str(n)\<close> of an integer and \<open>int(s)\<close> of a string (base 10: surrounding white
  space, an optional sign, digits with single underscores between them).\<close>

fun nat_digits :: "nat \<Rightarrow> pystr" where
  "nat_digits n =
     (if n < 10 then [char_of (48 + n)]
      else nat_digits (n div 10) @ [char_of (48 + n mod 10)])"

definition str_of_int :: "int \<Rightarrow> pystr" where
  "str_of_int i = (if i < 0 then CHR ''-'' # nat_digits (nat (- i)) else nat_digits (nat i))"

definition is_digit :: "char \<Rightarrow> bool" where
  "is_digit c = (48 \<le> (of_char c :: nat) \<and> (of_char c :: nat) \<le> 57)"

fun valid_int_body :: "pystr \<Rightarrow> bool" where
  "valid_int_body [] = False"
| "valid_int_body [c] = is_digit c"
| "valid_int_body (c # u # r) =
     (is_digit c \<and> (if u = CHR ''_'' then valid_int_body r else valid_int_body (u # r)))"

definition digits_value :: "pystr \<Rightarrow> nat" where
  "digits_value body =
     foldl (\<lambda>a c. 10 * a + (of_char c - 48)) 0 (filter (\<lambda>c. c \<noteq> CHR ''_'') body)"

definition py_int :: "pystr \<Rightarrow> py_error + int" where
  "py_int s =
     (let t = str_strip s;
          neg = (t \<noteq> [] \<and> hd t = CHR ''-'');
          body = (if t \<noteq> [] \<and> (hd t = CHR ''-'' \<or> hd t = CHR ''+'') then tl t else t)
      in if valid_int_body body
         then Inr (if neg then - int (digits_value body) else int (digits_value body))
         else Inl ValueError)"

text \<open>\<open>bytes.hex()\<close> and \<open>bytes.fromhex(s)\<close> (ASCII white space is skipped before each
  pair of hexadecimal digits).\<close>

definition hex_digit :: "nat \<Rightarrow> char" where
  "hex_digit n = (if n < 10 then char_of (48 + n) else char_of (87 + n))"

definition bytes_hex :: "bytes \<Rightarrow> pystr" where
  "bytes_hex b =
     concat (map (\<lambda>c. [hex_digit ((of_char c :: nat) div 16), hex_digit ((of_char c :: nat) mod 16)]) b)"

definition hex_value :: "char \<Rightarrow> nat option" where
  "hex_value c =
     (let n = (of_char c :: nat)
      in if 48 \<le> n \<and> n \<le> 57 then Some (n - 48)
         else if 97 \<le> n \<and> n \<le> 102 then Some (n - 87)
         else if 65 \<le> n \<and> n \<le> 70 then Some (n - 55)
         else None)"

definition is_ascii_space :: "char \<Rightarrow> bool" where
  "is_ascii_space c = (let n = (of_char c :: nat) in (9 \<le> n \<and> n \<le> 13) \<or> n = 32)"

fun bytes_fromhex :: "pystr \<Rightarrow> py_error + bytes" where
  "bytes_fromhex [] = Inr []"
| "bytes_fromhex [c] = (if is_ascii_space c then Inr [] else Inl ValueError)"
| "bytes_fromhex (a # b # r) =
     (if is_ascii_space a then bytes_fromhex (b # r)
      else (case hex_value a of
              None \<Rightarrow> Inl ValueError
            | Some x \<Rightarrow>
                (case hex_value b of
                   None \<Rightarrow> Inl ValueError
                 | Some y \<Rightarrow>
                     (case bytes_fromhex r of
                        Inl e \<Rightarrow> Inl e
                      | Inr bs \<Rightarrow> Inr (char_of (16 * x + y) # bs)))))"

definition PBKDF2_ITERATIONS :: int where
  "PBKDF2_ITERATIONS = 150000"

definition SALT_BYTES :: nat where
  "SALT_BYTES = 16"

text \<open>\<open>hash_password\<close> and \<open>verify_password\<close>. \<open>kdf pw salt n\<close> is
  \<open>hashlib.pbkdf2_hmac("sha256", pw, salt, n)\<close>, \<open>None\<close> when it raises; \<open>urandom\<close> is
  \<open>os.urandom\<close> for this call. \<open>hmac.compare_digest\<close> is equality of the two byte
  strings.\<close>

type_synonym kdf = "bytes \<Rightarrow> bytes \<Rightarrow> int \<Rightarrow> bytes option"

definition hash_password :: "kdf \<Rightarrow> (nat \<Rightarrow> bytes) \<Rightarrow> pystr \<Rightarrow> int \<Rightarrow> py_error + pystr" where
  "hash_password kdf urandom pw iterations =
     (if pw = [] then Inl ValueError
      else (let salt = urandom SALT_BYTES
            in (case kdf (str_encode pw) salt iterations of
                  None \<Rightarrow> Inl ValueError
                | Some dk \<Rightarrow>
                    Inr (str_of_int iterations @ ''$'' @ bytes_hex salt @ ''$'' @ bytes_hex dk))))"

definition verify_password_body :: "kdf \<Rightarrow> pystr \<Rightarrow> pystr \<Rightarrow> py_error + bool" where
  "verify_password_body kdf stored pw =
     (let parts = str_split CHR ''$'' stored
      in if length parts \<noteq> 3 then Inr False
         else (case py_int (parts ! 0) of
                 Inl e \<Rightarrow> Inl e
               | Inr iterations \<Rightarrow>
                   (case bytes_fromhex (parts ! 1) of
                      Inl e \<Rightarrow> Inl e
                    | Inr salt \<Rightarrow>
                        (case bytes_fromhex (parts ! 2) of
                           Inl e \<Rightarrow> Inl e
                         | Inr expected \<Rightarrow>
                             (case kdf (str_encode pw) salt iterations of
                                None \<Rightarrow> Inl ValueError
                              | Some derived \<Rightarrow> Inr (expected = derived))))))"

definition verify_password :: "kdf \<Rightarrow> pystr \<Rightarrow> pystr \<Rightarrow> bool" where
  "verify_password kdf stored pw =
     (case verify_password_body kdf stored pw of Inl e \<Rightarrow> False | Inr b \<Rightarrow> b)"

text \<open>The \<open>users\<close> table, keyed by the user name.\<close>

record user_row =
  user_name :: pystr
  user_password :: pystr
  user_role :: pystr

definition create_user ::
  "kdf \<Rightarrow> (nat \<Rightarrow> bytes) \<Rightarrow> pystr \<Rightarrow> pystr \<Rightarrow> pystr \<Rightarrow> user_row list
     \<Rightarrow> py_error + (bool \<times> user_row list)" where
  "create_user kdf urandom uname pw role users =
     (case hash_password kdf urandom pw PBKDF2_ITERATIONS of
        Inl e \<Rightarrow> Inl e
      | Inr hashed \<Rightarrow>
          if uname \<in> set (map user_name users) then Inr (False, users)
          else Inr (True, users @ [\<lparr>user_name = uname, user_password = hashed,
                                    user_role = role\<rparr>]))"

definition validate_user :: "kdf \<Rightarrow> pystr \<Rightarrow> pystr \<Rightarrow> user_row list \<Rightarrow> bool" where
  "validate_user kdf uname pw users =
     (case find (\<lambda>r. user_name r = uname) users of
        None \<Rightarrow> False
      | Some r \<Rightarrow> verify_password kdf (user_password r) pw)"

text \<open>\<open>ensure_default_admin\<close>, which the module runs when it is imported.\<close>

definition ensure_default_admin ::
  "kdf \<Rightarrow> (nat \<Rightarrow> bytes) \<Rightarrow> user_row list \<Rightarrow> py_error + user_row list" where
  "ensure_default_admin kdf urandom users =
     (if length (filter (\<lambda>r. user_role r = ''admin'') users) = 0
      then (case hash_password kdf urandom ''admin'' PBKDF2_ITERATIONS of
              Inl e \<Rightarrow> Inl e
            | Inr admin_hash \<Rightarrow>
                if ''admin'' \<in> set (map user_name users) then Inr users
                else Inr (users @ [\<lparr>user_name = ''admin'', user_password = admin_hash,
                                    user_role = ''admin''\<rparr>]))
      else Inr users)"

section \<open>First-run bootstrap (db/install.py)\<close>

text \<open>The state the bootstrap works on: the marker file \<open>first_run.json\<close>, the
  \<open>users\<close> table, and whether \<open>pyrewall.core.security\<close> has been imported already.
  Moving stray database files away does not touch this state.\<close>

record marker_data =
  cred_username :: pystr
  cred_password :: pystr
  admin_created :: bool

record install_state =
  marker_file :: "marker_data option"
  users_tbl :: "user_row list"
  security_imported :: bool

datatype install_status = Fresh | NotFresh

definition DEFAULT_ADMIN :: "pystr \<times> pystr \<times> pystr" where
  "DEFAULT_ADMIN = (''admin'', ''password'', ''admin'')"

text \<open>\<open>from pyrewall.core import security\<close>: the first import runs the module body.\<close>

definition import_security ::
  "kdf \<Rightarrow> (nat \<Rightarrow> bytes) \<Rightarrow> install_state \<Rightarrow> py_error + install_state" where
  "import_security kdf urandom st =
     (if security_imported st then Inr st
      else (case ensure_default_admin kdf urandom (users_tbl st) of
              Inl e \<Rightarrow> Inl e
            | Inr us \<Rightarrow> Inr (st\<lparr>users_tbl := us, security_imported := True\<rparr>)))"

text \<open>\<open>_create_default_admin\<close>: any exception gives \<open>created = False\<close>.\<close>

definition create_default_admin ::
  "kdf \<Rightarrow> (nat \<Rightarrow> bytes) \<Rightarrow> (nat \<Rightarrow> bytes) \<Rightarrow> install_state \<Rightarrow> bool \<times> install_state" where
  "create_default_admin kdf urandom_import urandom_create st =
     (case import_security kdf urandom_import st of
        Inl e \<Rightarrow> (False, st)
      | Inr st1 \<Rightarrow>
          (case DEFAULT_ADMIN of (uname, pw, role) \<Rightarrow>
            (case create_user kdf urandom_create uname pw role (users_tbl st1) of
               Inl e \<Rightarrow> (False, st1)
             | Inr (created, us) \<Rightarrow> (created, st1\<lparr>users_tbl := us\<rparr>))))"

text \<open>\<open>ensure_fresh_installation\<close>; \<open>fs_ok\<close> says whether the marker file can be
  written.\<close>

definition ensure_fresh_installation ::
  "kdf \<Rightarrow> (nat \<Rightarrow> bytes) \<Rightarrow> (nat \<Rightarrow> bytes) \<Rightarrow> bool \<Rightarrow> install_state
     \<Rightarrow> install_status \<times> install_state" where
  "ensure_fresh_installation kdf urandom_import urandom_create fs_ok st =
     (case marker_file st of
        Some m \<Rightarrow> (NotFresh, st)
      | None \<Rightarrow>
          (case create_default_admin kdf urandom_import urandom_create st of
             (created, st1) \<Rightarrow>
               (let marker = \<lparr>cred_username = fst DEFAULT_ADMIN,
                              cred_password = fst (snd DEFAULT_ADMIN),
                              admin_created = created\<rparr>
                in (Fresh, if fs_ok then st1\<lparr>marker_file := Some marker\<rparr> else st1))))"


section \<open>Inputs used in the examples\<close>

definition CRLF :: string where
  "CRLF = [CHR 0x0D, CHR 0x0A]"

text \<open>An HTTP request whose Host header names one site and whose Referer header
  mentions another.\<close>

definition example_request :: bytes where
  "example_request =
     ''GET / HTTP/1.1'' @ CRLF @ ''Host: Example.org:8080'' @ CRLF
     @ ''Referer: http://FACEBOOK.com/'' @ CRLF @ CRLF"

definition example_packet :: packet where
  "example_packet =
     \<lparr>dst_addr = Some ''93.184.216.34'', dst_port = Some 80,
      protocol = Some (ProtocolTuple (Some 6) (Some 20)), payload = example_request\<rparr>"

text \<open>A UDP datagram to port 443 as the capture library delivers it (IP protocol 17),
  and a DNS-over-HTTPS request carried over TCP.\<close>

definition quic_packet :: packet where
  "quic_packet =
     \<lparr>dst_addr = Some ''93.184.216.34'', dst_port = Some 443,
      protocol = Some (ProtocolTuple (Some 17) (Some 20)), payload = ''xyz''\<rparr>"


text \<open>A resolver that knows one name, a store that blocks it and holds one temporary
  row, and a thread with one blocked domain and one blocked address whose critical
  addresses are those of \<open>__init__\<close> when no gateway is detected.\<close>

definition example_getaddrinfo :: "pystr \<Rightarrow> pystr list option" where
  "example_getaddrinfo n =
     (if n = ''dns.google'' then Some [''8.8.8.8'', ''8.8.4.4''] else None)"

definition example_store :: store where
  "example_store =
     \<lparr>db = \<lparr>blocked_domains_tbl = [''dns.google''],
            blocked_ips_tbl = [\<lparr>ip = ''203.0.113.7'', domain = Some ''example.org'',
                                expires_at = Some 1000, reason = Some ''auto-temp''\<rparr>]\<rparr>,
      domain_update_event = False\<rparr>"

definition example_thread :: firewall_thread where
  "example_thread =
     \<lparr>domains = [''facebook.com''], blocked_ips = [''203.0.113.7''], app_signatures = [],
      critical_ips = critical_ips_init None\<rparr>"

text \<open>A stand-in for the key derivation (it tells any two passwords apart), a fixed
  source of salt bytes, and the state of a machine on its first run.\<close>

definition example_kdf :: kdf where
  "example_kdf pw salt n = (if n < 1 then None else Some (pw @ salt))"

definition example_urandom :: "nat \<Rightarrow> bytes" where
  "example_urandom n = replicate n (CHR 0x2A)"

definition fresh_state :: install_state where
  "fresh_state = \<lparr>marker_file = None, users_tbl = [], security_imported = False\<rparr>"

text \<open>TLS ClientHello records: one with a well-formed server name, one whose server-name
  list claims 100 bytes that are not there, and one whose name claims 50 bytes of which
  13 are there.\<close>

definition client_hello_prefix :: bytes where
  "client_hello_prefix =
     [CHR 0x16, CHR 0x03, CHR 0x01, CHR 0x00, CHR 0x00, CHR 0x01, CHR 0x00, CHR 0x00, CHR 0x00]
     @ replicate 34 (CHR 0x00)
     @ [CHR 0x00, CHR 0x00, CHR 0x00, CHR 0x00]"

definition sni_hello :: bytes where
  "sni_hello =
     client_hello_prefix @ [CHR 0x00, CHR 0x14]
     @ [CHR 0x00, CHR 0x00, CHR 0x00, CHR 0x10, CHR 0x00, CHR 0x0E, CHR 0x00, CHR 0x00, CHR 0x0B]
     @ ''Example.COM''"

definition overlong_list_hello :: bytes where
  "overlong_list_hello =
     client_hello_prefix @ [CHR 0x00, CHR 0x06]
     @ [CHR 0x00, CHR 0x00, CHR 0x00, CHR 0x02, CHR 0x00, CHR 0x64]"

definition overlong_name_hello :: bytes where
  "overlong_name_hello =
     client_hello_prefix @ [CHR 0x00, CHR 0x16]
     @ [CHR 0x00, CHR 0x00, CHR 0x00, CHR 0x12, CHR 0x00, CHR 0x64, CHR 0x00, CHR 0x00, CHR 0x32]
     @ ''short.example''"

declare nat_digits.simps [simp del]
declare sn_loop.simps [simp del]
declare ext_loop.simps [simp del]

section \<open>Properties of the DNS proxy\<close>

lemma is_blocked_loop_iff:
  "is_blocked_loop q cache \<longleftrightarrow>
     (\<exists>d \<in> set cache. d \<noteq> [] \<and>
        (q = lstrip_chars ''*.'' (str_lower d)
         \<or> endswith q (''.'' @ lstrip_chars ''*.'' (str_lower d))))"
  by (induction cache) (auto simp: Let_def)

lemma wildcard_matches_subdomain: "is_blocked [''*.facebook.com''] ''www.facebook.com''"
  by code_simp

lemma wildcard_matches_apex: "is_blocked [''*.facebook.com''] ''facebook.com''"
  by code_simp

lemma plain_matches_both:
  "is_blocked [''facebook.com''] ''facebook.com''
   \<and> is_blocked [''facebook.com''] ''www.facebook.com''"
  by code_simp

lemma leading_dot_entry:
  "is_blocked [''.com''] ''a.com'' \<and> \<not> spec_is_blocked [''.com''] ''a.com''"
  by code_simp

lemma lstrip_normal_entry:
  assumes "normal_entry d"
  shows "lstrip_chars ''*.'' (str_lower d) = strip_wildcard_prefix d"
proof (cases "startswith d ''*.''")
  case True
  then obtain c where d: "d = CHR ''*'' # CHR ''.'' # c"
    by (cases d; cases "tl d") (auto simp: startswith_def)
  with assms have "c = [] \<or> hd c \<notin> set ''*.''"
    by (simp add: normal_entry_def strip_wildcard_prefix_def startswith_def)
  then have "dropWhile (\<lambda>x. x \<in> set ''*.'') c = c"
    by (cases c) auto
  with assms d show ?thesis
    by (simp add: normal_entry_def lstrip_chars_def strip_wildcard_prefix_def startswith_def)
next
  case False
  with assms have "hd d \<notin> set ''*.''" "d \<noteq> []"
    by (auto simp: normal_entry_def strip_wildcard_prefix_def)
  then have "dropWhile (\<lambda>x. x \<in> set ''*.'') d = d"
    by (cases d) auto
  with assms False show ?thesis
    by (simp add: normal_entry_def lstrip_chars_def strip_wildcard_prefix_def)
qed

lemma is_blocked_normal_cache:
  assumes "\<forall>d \<in> set cache. normal_entry d"
  shows "is_blocked cache qname = spec_is_blocked cache qname"
proof -
  have "is_blocked_loop q cache =
          list_ex (\<lambda>d. q = strip_wildcard_prefix d \<or> endswith q (''.'' @ strip_wildcard_prefix d)) cache"
    for q
    using assms
  proof (induction cache)
    case Nil
    then show ?case by simp
  next
    case (Cons d ds)
    then have n: "normal_entry d" by simp
    then have "d \<noteq> []" by (simp add: normal_entry_def)
    with Cons lstrip_normal_entry [OF n] show ?case by (simp add: Let_def)
  qed
  then show ?thesis by (simp add: is_blocked_def spec_is_blocked_def Let_def)
qed

lemma refresh_cache_idem:
  "refresh_cache db_ok d (refresh_cache db_ok d cache) = refresh_cache db_ok d cache"
  by (simp add: refresh_cache_def sqlite3_connect_def)

text \<open>
  C2, as stated, fails on the code: a cached \<open>"*.facebook.com"\<close> does match the query
  \<open>facebook.com\<close>, and \<open>lstrip("*.")\<close> strips every leading star and dot (so a cached
  \<open>".com"\<close> matches \<open>a.com\<close>, which the rule with a stripped \<open>"*."\<close> prefix does not).
\<close>

theorem is_blocked_claim_counterexample:
  "is_blocked [''*.facebook.com''] ''facebook.com''
   \<and> is_blocked [''.com''] ''a.com'' \<and> \<not> spec_is_blocked [''.com''] ''a.com''"
  using wildcard_matches_apex leading_dot_entry by simp

text \<open>
  C2 (amended). A query name \<open>q\<close> (trailing dots stripped, lowercased) is answered
  NXDOMAIN iff the cache holds a non-empty domain \<open>d\<close> such that, after lowercasing
  \<open>d\<close> and stripping every leading \<open>*\<close> and \<open>.\<close> character from it, \<open>q\<close> equals the rest
  or ends with \<open>"."\<close> followed by the rest. On a cache of entries in normal form this
  is the rule with one stripped \<open>"*."\<close> prefix. A cached \<open>"*.facebook.com"\<close> matches
  \<open>www.facebook.com\<close> and also \<open>facebook.com\<close>; a cached \<open>"facebook.com"\<close> matches both.
\<close>

theorem is_blocked_matching_rule:
  "(is_blocked cache qname \<longleftrightarrow>
      (\<exists>d \<in> set cache. d \<noteq> [] \<and>
         (let q = str_lower (rstrip_chars ''.'' qname);
              check = lstrip_chars ''*.'' (str_lower d)
          in q = check \<or> endswith q (''.'' @ check))))
   \<and> ((\<forall>d \<in> set cache. normal_entry d)
        \<longrightarrow> is_blocked cache qname = spec_is_blocked cache qname)
   \<and> is_blocked [''*.facebook.com''] ''www.facebook.com''
   \<and> is_blocked [''*.facebook.com''] ''facebook.com''
   \<and> is_blocked [''facebook.com''] ''facebook.com''
   \<and> is_blocked [''facebook.com''] ''www.facebook.com''"
  using wildcard_matches_subdomain wildcard_matches_apex plain_matches_both
    is_blocked_normal_cache [of cache qname]
  by (simp add: is_blocked_def is_blocked_loop_iff Let_def)

theorem is_blocked_matching_rule_witness:
  "normal_entry ''*.youtube.com''
   \<and> is_blocked [''*.youtube.com''] ''M.YouTube.com.''
   \<and> spec_is_blocked [''*.youtube.com''] ''M.YouTube.com.''
   \<and> (\<exists>d \<in> set [''*.youtube.com'']. d \<noteq> [] \<and>
        (let q = str_lower (rstrip_chars ''.'' ''M.YouTube.com.'');
             check = lstrip_chars ''*.'' (str_lower d)
         in q = check \<or> endswith q (''.'' @ check)))"
proof -
  have n: "normal_entry ''*.youtube.com''"
    by code_simp
  have b: "is_blocked [''*.youtube.com''] ''M.YouTube.com.''"
    by code_simp
  have all: "\<forall>d \<in> set [''*.youtube.com'']. normal_entry d"
    using n by simp
  note rule = is_blocked_matching_rule [of "[''*.youtube.com'']" "''M.YouTube.com.''"]
  from rule all have "is_blocked [''*.youtube.com''] ''M.YouTube.com.''
      = spec_is_blocked [''*.youtube.com''] ''M.YouTube.com.''"
    by blast
  with b have s: "spec_is_blocked [''*.youtube.com''] ''M.YouTube.com.''"
    by simp
  from rule b have "\<exists>d \<in> set [''*.youtube.com'']. d \<noteq> [] \<and>
        (let q = str_lower (rstrip_chars ''.'' ''M.YouTube.com.'');
             check = lstrip_chars ''*.'' (str_lower d)
         in q = check \<or> endswith q (''.'' @ check))"
    by blast
  with n b s show ?thesis by blast
qed

lemma rstrip_chars_idem: "rstrip_chars cs (rstrip_chars cs s) = rstrip_chars cs s"
  unfolding rstrip_chars_def
  by (cases "dropWhile (\<lambda>c. c \<in> set cs) (rev s)") (auto simp: dropWhile_eq_Cons_conv)

lemma is_blocked_rstrip: "is_blocked cache (rstrip_chars ''.'' q) = is_blocked cache q"
  by (simp add: is_blocked_def rstrip_chars_idem)

text \<open>
  C6. For every query that \<open>DNSRecord.parse\<close> accepts and whose name is blocked, the
  proxy answers with a DNS message whose header id is the id of the request, with
  QR = 1, AA = 1, RA = 1, RCODE = NXDOMAIN, and no answer records.
\<close>

theorem blocked_query_reply:
  assumes "parse data = Some request"
    and "is_blocked cache (q_qname request)"
  shows "\<exists>reply. handle_query parse forward_query cache data = Some (SendRecord reply)
           \<and> header_id (header reply) = header_id (header request)
           \<and> qr (header reply) = 1 \<and> aa (header reply) = 1 \<and> ra (header reply) = 1
           \<and> rcode (header reply) = NXDOMAIN \<and> rr reply = []"
  using assms by (simp add: handle_query_def is_blocked_rstrip)

theorem blocked_query_reply_witness:
  "\<exists>reply. handle_query
       (\<lambda>b. Some \<lparr>header = \<lparr>header_id = 4660, qr = 0, aa = 0, ra = 0, rcode = NOERROR\<rparr>,
                   questions = [''www.facebook.com.''], rr = []\<rparr>)
       (\<lambda>b. None) [''facebook.com''] ''query'' = Some (SendRecord reply)
     \<and> header_id (header reply) = 4660
     \<and> qr (header reply) = 1 \<and> aa (header reply) = 1 \<and> ra (header reply) = 1
     \<and> rcode (header reply) = NXDOMAIN \<and> rr reply = []"
proof -
  let ?request = "\<lparr>header = \<lparr>header_id = 4660, qr = 0, aa = 0, ra = 0, rcode = NOERROR\<rparr>,
                    questions = [''www.facebook.com.''], rr = []\<rparr>"
  have blocked: "is_blocked [''facebook.com''] (q_qname ?request)"
    by code_simp
  from blocked
    blocked_query_reply [of "\<lambda>b. Some ?request" "''query''" ?request "[''facebook.com'']"
                            "\<lambda>b. None"]
  show ?thesis by simp
qed

section \<open>Properties of the per-packet pipeline\<close>

text \<open>What the QUIC check would do with an attribute that is a member of the
  enumeration, and what it does with the tuple every captured packet carries.\<close>

lemma quic_check_on_protocol_member:
  assumes "protocol pkt = Some (ProtocolMember UDP)"
    and "dst_port pkt = Some 443"
  shows "fst (process_packet dec fnm fs_ok db_ok now pkt (self, d)) = Drop BlockedIP
       \<or> fst (process_packet dec fnm fs_ok db_ok now pkt (self, d)) = Drop Quic"
  using assms by (simp add: process_packet_def is_udp_def equals_Protocol_UDP_def Let_def)

lemma protocol_tuple_not_udp: "\<not> is_udp (pkt\<lparr>protocol := Some (ProtocolTuple number offset)\<rparr>)"
  by (simp add: is_udp_def equals_Protocol_UDP_def)

text \<open>
  C4. The claim is that every captured UDP packet with destination port 443 is dropped.
  The code breaks it: the loop compares the \<open>protocol\<close> attribute, which is a tuple, with
  \<open>pydivert.Protocol.UDP\<close>, so \<open>is_udp\<close> is false for every captured packet and the QUIC
  check never drops one. A UDP datagram to port 443 whose address is not blocked and
  whose payload matches nothing is sent on.
\<close>

theorem udp_443_reinjected:
  "fst (process_packet dec fnm fs_ok db_ok now
          (pkt\<lparr>protocol := Some (ProtocolTuple number offset)\<rparr>) (self, d)) \<noteq> Drop Quic
   \<and> dst_port quic_packet = Some 443
   \<and> protocol quic_packet = Some (ProtocolTuple (Some 17) (Some 20))
   \<and> fst (process_packet (\<lambda>b. b) (\<lambda>h p. False) True True 0 quic_packet
            (example_thread, db example_store)) = Reinject"
proof -
  have never: "fst (process_packet dec fnm fs_ok db_ok now
          (pkt\<lparr>protocol := Some (ProtocolTuple number offset)\<rparr>) (self, d)) \<noteq> Drop Quic"
    using protocol_tuple_not_udp [where pkt = pkt and number = number and offset = offset]
    by (auto simp: process_packet_def Let_def split: sum.splits option.splits prod.splits)
  have port: "dst_port quic_packet = Some 443"
    and attr: "protocol quic_packet = Some (ProtocolTuple (Some 17) (Some 20))"
    by (simp_all add: quic_packet_def)
  have sent: "fst (process_packet (\<lambda>b. b) (\<lambda>h p. False) True True 0 quic_packet
            (example_thread, db example_store)) = Reinject"
    by code_simp
  from never port attr sent show ?thesis by blast
qed

text \<open>Rows as \<open>get_all_signatures\<close> returns them have six columns, so the loop over the
  application signatures raises on the first row.\<close>

lemma app_match_loop_six_columns:
  "tbl \<noteq> [] \<Longrightarrow> app_match_loop fnm host (get_all_signatures tbl) = Inl ValueError"
  by (cases tbl) (simp_all add: get_all_signatures_def)

lemma host_match_loop_iff:
  "host_match_loop h ds \<noteq> None \<longleftrightarrow> (\<exists>d \<in> set ds. h = d \<or> endswith h (''.'' @ d))"
  by (induction ds) auto

lemma payload_scan_loop_iff:
  "payload_scan_loop low ds \<noteq> None \<longleftrightarrow> (\<exists>d \<in> set ds. contains low (str_encode d))"
  by (induction ds) auto

text \<open>
  C5, as stated, fails on the code: the request below carries the host
  \<open>example.org\<close>, which matches no blocked domain, and is still put through the
  substring scan, which finds \<open>facebook.com\<close> in the Referer header and drops the packet.
\<close>

theorem substring_scan_claim_counterexample:
  "extract_host (\<lambda>b. b) (payload example_packet) = Some ''example.org''
   \<and> host_stage (Some ''example.org'') (domains example_thread) = None
   \<and> fst (process_packet (\<lambda>b. b) (\<lambda>h p. False) True True 0 example_packet
            (example_thread, db example_store)) = Drop (BlockedDomain ''facebook.com'')"
  by code_simp

text \<open>
  C5 (amended). An extracted host \<open>h\<close> matches a blocked domain \<open>d\<close> iff \<open>h = d\<close> or
  \<open>h\<close> ends with \<open>"." + d\<close>; without a host there is no host match. The fallback
  case-insensitive substring scan of the payload is performed whenever the host match
  produced no hit: when no host was extracted and also when the extracted host matches
  no blocked domain. It is skipped only after a host match.
\<close>

theorem domain_match_stages:
  "(truthy host \<longrightarrow>
      (host_stage host ds \<noteq> None
         \<longleftrightarrow> (\<exists>d \<in> set ds. the host = d \<or> endswith (the host) (''.'' @ d))))
   \<and> (\<not> truthy host \<longrightarrow> host_stage host ds = None)
   \<and> (truthy (host_stage host ds)
        \<longrightarrow> scan_stage (host_stage host ds) pl ds = host_stage host ds)
   \<and> (\<not> truthy (host_stage host ds) \<longrightarrow>
        scan_stage (host_stage host ds) pl ds =
          (case payload_scan_loop (bytes_lower pl) ds of
             None \<Rightarrow> host_stage host ds
           | Some d \<Rightarrow> Some d))"
proof -
  have a: "truthy host \<longrightarrow>
      (host_stage host ds \<noteq> None
         \<longleftrightarrow> (\<exists>d \<in> set ds. the host = d \<or> endswith (the host) (''.'' @ d)))"
    using host_match_loop_iff [of "the host" ds] by (auto simp: host_stage_def)
  have b: "\<not> truthy host \<longrightarrow> host_stage host ds = None"
    by (simp add: host_stage_def)
  have c: "truthy (host_stage host ds)
        \<longrightarrow> scan_stage (host_stage host ds) pl ds = host_stage host ds"
    by (simp add: scan_stage_def)
  have e: "\<not> truthy (host_stage host ds) \<longrightarrow>
        scan_stage (host_stage host ds) pl ds =
          (case payload_scan_loop (bytes_lower pl) ds of
             None \<Rightarrow> host_stage host ds
           | Some d \<Rightarrow> Some d)"
    by (simp add: scan_stage_def)
  from a b c e show ?thesis by blast
qed

theorem domain_match_stages_witness:
  "truthy (Some ''example.org'')
   \<and> \<not> (\<exists>d \<in> set [''facebook.com''].
            the (Some ''example.org'') = d \<or> endswith (the (Some ''example.org'')) (''.'' @ d))
   \<and> \<not> truthy (host_stage (Some ''example.org'') [''facebook.com''])
   \<and> scan_stage (host_stage (Some ''example.org'') [''facebook.com'']) example_request
        [''facebook.com''] = Some ''facebook.com''"
proof -
  have t: "truthy (Some ''example.org'')"
    by code_simp
  have n: "host_stage (Some ''example.org'') [''facebook.com''] = None"
    by code_simp
  have s: "payload_scan_loop (bytes_lower example_request) [''facebook.com'']
             = Some ''facebook.com''"
    by code_simp
  from domain_match_stages [of "Some ''example.org''" "[''facebook.com'']" example_request]
    t n s
  show ?thesis by (simp add: truthy_def)
qed




section \<open>Properties of the blocklist store\<close>

lemma foldl_insert_or_ignore:
  "distinct (map ip acc @ xs) \<Longrightarrow>
   foldl (\<lambda>t a. insert_or_ignore (ip_only_row a) t) acc xs = acc @ map ip_only_row xs"
proof (induction xs arbitrary: acc)
  case Nil
  then show ?case by simp
next
  case (Cons x xs)
  have "insert_or_ignore (ip_only_row x) acc = acc @ [ip_only_row x]"
    using Cons.prems by (auto simp: insert_or_ignore_def ip_only_row_def)
  moreover have "distinct (map ip (acc @ [ip_only_row x]) @ xs)"
    using Cons.prems by (auto simp: ip_only_row_def)
  ultimately show ?case using Cons.IH [of "acc @ [ip_only_row x]"] by simp
qed

lemma sync_table:
  "blocked_ips_tbl (db (sync_blocked_ips g True st)) =
     map ip_only_row
       (remdups (concat (map (resolve_domain_to_ips g) (blocked_domains_tbl (db st)))))"
  by (simp add: sync_blocked_ips_def sqlite3_connect_def Let_def foldl_insert_or_ignore)

lemma map_ip_only_row: "map ip (map ip_only_row xs) = xs"
  by (induction xs) (simp_all add: ip_only_row_def)

text \<open>The guarded write path: \<open>_add_temporary_block_ip\<close> leaves everything as it is for
  a critical address, and no row it adds carries one.\<close>

lemma add_temporary_block_ip_critical:
  "a \<in> set (critical_ips self) \<Longrightarrow>
     add_temporary_block_ip fs_ok db_ok now a dh ttl (self, d) = (self, d)"
  by (simp add: add_temporary_block_ip_def)

lemma add_temporary_block_ip_rows:
  assumes "r \<in> set (blocked_ips_tbl
                      (snd (add_temporary_block_ip fs_ok db_ok now a dh ttl (self, d))))"
    and "ip r \<in> set (critical_ips self)"
  shows "r \<in> set (blocked_ips_tbl d)"
  using assms
  by (auto simp: add_temporary_block_ip_def sqlite3_connect_def insert_or_replace_def Let_def
      split: if_splits sum.splits)

text \<open>
  C1. The claim is that no write path into \<open>blocked_ips\<close> inserts a row for a critical
  address. The code breaks it: with \<open>dns.google\<close> blocked and resolving to \<open>8.8.8.8\<close>,
  which is in the critical set of the thread, both \<open>sync_blocked_ips\<close> and
  \<open>_resolve_and_store_ips\<close> insert a row with \<open>ip = 8.8.8.8\<close>.
\<close>

theorem unguarded_writes_insert_critical_ip:
  "''8.8.8.8'' \<in> set (critical_ips example_thread)
   \<and> ''8.8.8.8'' \<in> set (map ip (blocked_ips_tbl
         (db (sync_blocked_ips example_getaddrinfo True example_store))))
   \<and> ''8.8.8.8'' \<in> set (map ip (blocked_ips_tbl
         (snd (resolve_and_store_ips example_getaddrinfo True True ''dns.google''
                 (example_thread, db example_store)))))"
  by code_simp

text \<open>
  C3, as stated, fails on the code: \<open>sync_blocked_ips\<close> deletes every row, so the
  temporary row of the example store (non-null \<open>expires_at\<close>) does not survive, and the
  function itself does not set the reload event.
\<close>

theorem sync_blocked_ips_claim_counterexample:
  "\<lparr>ip = ''203.0.113.7'', domain = Some ''example.org'', expires_at = Some 1000,
     reason = Some ''auto-temp''\<rparr> \<in> set (blocked_ips_tbl (db example_store))
   \<and> ''203.0.113.7'' \<notin> set (map ip (blocked_ips_tbl
         (db (sync_blocked_ips example_getaddrinfo True example_store))))
   \<and> \<not> domain_update_event (sync_blocked_ips example_getaddrinfo True example_store)"
  by code_simp

text \<open>
  C3 (amended). \<open>sync_blocked_ips\<close> deletes every row of \<open>blocked_ips\<close>, temporary ones
  included, and inserts rows for resolved addresses of the blocked domains only: every
  address in the new table is a resolved one, every resolved address outside the
  critical-protection set is in the table, each once and with a null \<open>expires_at\<close>.
  The blocked domains are unchanged, the whole change is one transaction (on a
  database error nothing changes), and the reload event is not touched by
  \<open>sync_blocked_ips\<close> itself: \<open>add_blocked_domain\<close> and \<open>remove_blocked_domain\<close> set it
  after the resync.
\<close>

theorem sync_blocked_ips_replaces_table:
  "set (map ip (blocked_ips_tbl (db (sync_blocked_ips g True st))))
       \<subseteq> (\<Union>dn \<in> set (blocked_domains_tbl (db st)). set (resolve_domain_to_ips g dn))
   \<and> (\<forall>gw. (\<Union>dn \<in> set (blocked_domains_tbl (db st)). set (resolve_domain_to_ips g dn))
              - set (critical_ips_init gw)
            \<subseteq> set (map ip (blocked_ips_tbl (db (sync_blocked_ips g True st)))))
   \<and> (\<forall>r \<in> set (blocked_ips_tbl (db (sync_blocked_ips g True st))). expires_at r = None)
   \<and> distinct (map ip (blocked_ips_tbl (db (sync_blocked_ips g True st))))
   \<and> blocked_domains_tbl (db (sync_blocked_ips g True st)) = blocked_domains_tbl (db st)
   \<and> domain_update_event (sync_blocked_ips g True st) = domain_update_event st
   \<and> sync_blocked_ips g False st = st
   \<and> domain_update_event (add_blocked_domain g True dname st)
   \<and> domain_update_event (remove_blocked_domain g True dname st)"
proof -
  let ?U = "\<Union>dn \<in> set (blocked_domains_tbl (db st)). set (resolve_domain_to_ips g dn)"
  let ?st' = "sync_blocked_ips g True st"
  have ips: "map ip (blocked_ips_tbl (db ?st')) =
      remdups (concat (map (resolve_domain_to_ips g) (blocked_domains_tbl (db st))))"
    by (simp only: sync_table map_ip_only_row)
  have eq: "set (map ip (blocked_ips_tbl (db ?st'))) = ?U"
    unfolding ips by auto
  have nulls: "\<forall>r \<in> set (blocked_ips_tbl (db ?st')). expires_at r = None"
    by (auto simp: sync_table ip_only_row_def)
  have dist: "distinct (map ip (blocked_ips_tbl (db ?st')))"
    unfolding ips by simp
  have doms: "blocked_domains_tbl (db ?st') = blocked_domains_tbl (db st)"
    by (simp add: sync_blocked_ips_def sqlite3_connect_def Let_def)
  have ev: "domain_update_event ?st' = domain_update_event st"
    by (simp add: sync_blocked_ips_def sqlite3_connect_def Let_def)
  have fail: "sync_blocked_ips g False st = st"
    by (simp add: sync_blocked_ips_def sqlite3_connect_def)
  have add: "domain_update_event (add_blocked_domain g True dname st)"
    by (simp add: add_blocked_domain_def sqlite3_connect_def Let_def)
  have rem: "domain_update_event (remove_blocked_domain g True dname st)"
    by (simp add: remove_blocked_domain_def sqlite3_connect_def Let_def)
  from eq nulls dist doms ev fail add rem show ?thesis by blast
qed

theorem sync_blocked_ips_replaces_table_witness:
  "''8.8.4.4'' \<in> (\<Union>dn \<in> set (blocked_domains_tbl (db example_store)).
                      set (resolve_domain_to_ips example_getaddrinfo dn))
                 - set (critical_ips_init None)
   \<and> ''8.8.4.4'' \<in> set (map ip (blocked_ips_tbl
         (db (sync_blocked_ips example_getaddrinfo True example_store))))
   \<and> map expires_at (blocked_ips_tbl
         (db (sync_blocked_ips example_getaddrinfo True example_store))) = [None, None]"
proof -
  have two: "length (blocked_ips_tbl
         (db (sync_blocked_ips example_getaddrinfo True example_store))) = 2"
    by code_simp
  have "''8.8.4.4'' \<in> set (resolve_domain_to_ips example_getaddrinfo ''dns.google'')"
    by code_simp
  moreover have "''dns.google'' \<in> set (blocked_domains_tbl (db example_store))"
    by code_simp
  moreover have "''8.8.4.4'' \<notin> set (critical_ips_init None)"
    by code_simp
  ultimately have in_u: "''8.8.4.4'' \<in> (\<Union>dn \<in> set (blocked_domains_tbl (db example_store)).
                      set (resolve_domain_to_ips example_getaddrinfo dn))
                 - set (critical_ips_init None)"
    by blast
  from in_u sync_blocked_ips_replaces_table [of example_getaddrinfo example_store]
  have "''8.8.4.4'' \<in> set (map ip (blocked_ips_tbl
         (db (sync_blocked_ips example_getaddrinfo True example_store))))"
    and "\<forall>r \<in> set (blocked_ips_tbl
         (db (sync_blocked_ips example_getaddrinfo True example_store))). expires_at r = None"
    by blast+
  moreover have "map expires_at t = [None, None]"
    if "length t = 2" and "\<forall>r \<in> set t. expires_at r = None" for t :: "blocked_ip_row list"
    using that by (cases t; cases "tl t") auto
  ultimately show ?thesis using two in_u by blast
qed


section \<open>Properties of the credential module\<close>

lemma str_split_not_Nil: "str_split c s \<noteq> []"
  by (induction s) (auto split: list.splits)

lemma str_split_no_sep: "c \<notin> set s \<Longrightarrow> str_split c s = [s]"
  by (induction s) auto

lemma str_split_append: "c \<notin> set a \<Longrightarrow> str_split c (a @ c # r) = a # str_split c r"
  by (induction a) (auto split: list.splits)

lemma str_split_three:
  assumes "c \<notin> set a" "c \<notin> set b" "c \<notin> set e"
  shows "str_split c (a @ [c] @ b @ [c] @ e) = [a, b, e]"
  using assms by (simp add: str_split_append str_split_no_sep)

lemma hex_digit_code: "k < 16 \<Longrightarrow> (of_char (hex_digit k) :: nat) = (if k < 10 then 48 + k else 87 + k)"
  by (simp add: hex_digit_def)

lemma hex_digit_props:
  assumes "k < 16"
  shows "hex_value (hex_digit k) = Some k" "\<not> is_ascii_space (hex_digit k)"
    "hex_digit k \<noteq> CHR ''$''"
proof -
  show "hex_value (hex_digit k) = Some k"
    using assms by (simp add: hex_value_def hex_digit_code Let_def)
  show "\<not> is_ascii_space (hex_digit k)"
    using assms by (simp add: is_ascii_space_def hex_digit_code Let_def)
  have "(of_char (hex_digit k) :: nat) \<noteq> of_char CHR ''$''"
    using assms by (simp add: hex_digit_code)
  then show "hex_digit k \<noteq> CHR ''$''" by auto
qed

lemma of_char_lt: "(of_char c :: nat) < 256"
  by (cases c) simp


lemma bytes_fromhex_hex: "bytes_fromhex (bytes_hex b) = Inr b"
proof (induction b)
  case Nil
  then show ?case by (simp add: bytes_hex_def)
next
  case (Cons c cs)
  let ?n = "of_char c :: nat"
  have hi: "?n div 16 < 16" using of_char_lt [of c] by (simp add: less_mult_imp_div_less)
  have lo: "?n mod 16 < 16" by simp
  have unfold: "bytes_hex (c # cs) = hex_digit (?n div 16) # hex_digit (?n mod 16) # bytes_hex cs"
    by (simp add: bytes_hex_def)
  have recomb: "char_of (16 * (?n div 16) + ?n mod 16) = c"
    by simp
  show ?case
    unfolding unfold using Cons.IH hex_digit_props [OF hi] hex_digit_props [OF lo] recomb
    by simp
qed

lemma bytes_hex_no_dollar: "CHR ''$'' \<notin> set (bytes_hex b)"
proof (induction b)
  case Nil
  then show ?case by (simp add: bytes_hex_def)
next
  case (Cons c cs)
  let ?n = "of_char c :: nat"
  have hi: "?n div 16 < 16" using of_char_lt [of c] by (simp add: less_mult_imp_div_less)
  have lo: "?n mod 16 < 16" by simp
  have unfold: "bytes_hex (c # cs) = hex_digit (?n div 16) # hex_digit (?n mod 16) # bytes_hex cs"
    by (simp add: bytes_hex_def)
  show ?case
    unfolding unfold using Cons.IH hex_digit_props(3) [OF hi] hex_digit_props(3) [OF lo]
    by auto
qed


lemma is_digit_char_of: "(k::nat) < 10 \<Longrightarrow> is_digit (char_of (48 + k))"
  by (simp add: is_digit_def)

lemma nat_digits_digits: "\<forall>c \<in> set (nat_digits n). is_digit c"
proof (induction n rule: nat_digits.induct)
  case (1 n)
  show ?case
  proof (cases "n < 10")
    case True
    then show ?thesis by (simp add: nat_digits.simps [of n] is_digit_char_of)
  next
    case False
    with 1 show ?thesis by (simp add: nat_digits.simps [of n] is_digit_char_of)
  qed
qed

lemma nat_digits_not_Nil: "nat_digits n \<noteq> []"
  by (simp add: nat_digits.simps [of n])

lemma is_digit_facts:
  assumes "is_digit c"
  shows "c \<noteq> CHR ''_''" "c \<noteq> CHR ''-''" "c \<noteq> CHR ''+''" "c \<noteq> CHR ''$''" "\<not> is_space c"
  using assms by (auto simp: is_digit_def is_space_def)

lemma valid_int_body_digits:
  "s \<noteq> [] \<Longrightarrow> \<forall>c \<in> set s. is_digit c \<Longrightarrow> valid_int_body s"
  by (induction s rule: valid_int_body.induct) (auto simp: is_digit_facts)

lemma digits_value_snoc:
  "c \<noteq> CHR ''_'' \<Longrightarrow> digits_value (s @ [c]) = 10 * digits_value s + (of_char c - 48)"
  by (simp add: digits_value_def)

lemma digits_value_single: "c \<noteq> CHR ''_'' \<Longrightarrow> digits_value [c] = of_char c - 48"
  by (simp add: digits_value_def)

lemma digits_value_nat_digits: "digits_value (nat_digits n) = n"
proof (induction n rule: nat_digits.induct)
  case (1 n)
  show ?case
  proof (cases "n < 10")
    case True
    then show ?thesis
      by (simp add: nat_digits.simps [of n] digits_value_single is_digit_facts is_digit_char_of)
  next
    case False
    have "char_of (48 + n mod 10) \<noteq> CHR ''_''"
      by (simp add: is_digit_facts is_digit_char_of)
    with False 1 show ?thesis
      by (simp add: nat_digits.simps [of n] digits_value_snoc)
  qed
qed

lemma str_strip_no_space: "\<forall>c \<in> set s. \<not> is_space c \<Longrightarrow> str_strip s = s"
proof -
  assume a: "\<forall>c \<in> set s. \<not> is_space c"
  then have "dropWhile is_space s = s"
    by (cases s) auto
  moreover from a have "dropWhile is_space (rev s) = rev s"
    by (cases "rev s") (auto simp: rev_eq_Cons_iff)
  ultimately show ?thesis by (simp add: str_strip_def)
qed



lemma py_int_str_of_int: "py_int (str_of_int i) = Inr i"
proof (cases "i < 0")
  case True
  let ?ds = "nat_digits (nat (- i))"
  have s: "str_of_int i = CHR ''-'' # ?ds" using True by (simp add: str_of_int_def)
  have "\<not> is_space CHR ''-''" by (simp add: is_space_def)
  then have strip: "str_strip (CHR ''-'' # ?ds) = CHR ''-'' # ?ds"
    using nat_digits_digits [of "nat (- i)"] by (intro str_strip_no_space) (auto simp: is_digit_facts)
  have v: "valid_int_body ?ds"
    using nat_digits_digits nat_digits_not_Nil by (rule_tac valid_int_body_digits) auto
  show ?thesis
    using True v by (simp add: py_int_def s strip Let_def digits_value_nat_digits)
next
  case False
  let ?ds = "nat_digits (nat i)"
  have s: "str_of_int i = ?ds" using False by (simp add: str_of_int_def)
  have strip: "str_strip ?ds = ?ds"
    using nat_digits_digits [of "nat i"] by (intro str_strip_no_space) (auto simp: is_digit_facts)
  have v: "valid_int_body ?ds"
    using nat_digits_digits nat_digits_not_Nil by (rule_tac valid_int_body_digits) auto
  have "is_digit (hd ?ds)"
    using nat_digits_digits [of "nat i"] nat_digits_not_Nil [of "nat i"] by (cases ?ds) auto
  then have h: "hd ?ds \<noteq> CHR ''-''" "hd ?ds \<noteq> CHR ''+''"
    by (auto simp: is_digit_facts)
  show ?thesis
    using False v h by (simp add: py_int_def s strip Let_def digits_value_nat_digits)
qed



lemma str_of_int_no_dollar: "CHR ''$'' \<notin> set (str_of_int i)"
proof -
  have "CHR ''$'' \<notin> set (nat_digits n)" for n
    using nat_digits_digits [of n] is_digit_facts(4) by blast
  then show ?thesis by (simp add: str_of_int_def)
qed

lemma stored_fields:
  "str_split CHR ''$'' (str_of_int it @ CHR ''$'' # bytes_hex salt @ CHR ''$'' # bytes_hex dk)
     = [str_of_int it, bytes_hex salt, bytes_hex dk]"
  using str_split_three [OF str_of_int_no_dollar bytes_hex_no_dollar bytes_hex_no_dollar,
      of it salt dk]
  by simp

lemma verify_hash:
  assumes "kdf (str_encode pw) salt it = Some dk"
  shows "verify_password kdf (str_of_int it @ ''$'' @ bytes_hex salt @ ''$'' @ bytes_hex dk) pw"
  using assms
  by (simp add: verify_password_def verify_password_body_def stored_fields py_int_str_of_int
      bytes_fromhex_hex)

lemma iterations_str: "str_of_int PBKDF2_ITERATIONS = ''150000''"
proof -
  have digits: "char_of (49::nat) = CHR ''1''" "char_of (53::nat) = CHR ''5''"
    "char_of (48::nat) = CHR ''0''"
    by code_simp+
  show ?thesis
    by (simp add: str_of_int_def PBKDF2_ITERATIONS_def nat_digits.simps digits)
qed

lemma verify_stored:
  "verify_password kdf (str_of_int it @ ''$'' @ bytes_hex salt @ ''$'' @ bytes_hex dk) pw
     = (case kdf (str_encode pw) salt it of None \<Rightarrow> False | Some d \<Rightarrow> dk = d)"
  by (simp add: verify_password_def verify_password_body_def stored_fields py_int_str_of_int
      bytes_fromhex_hex split: option.splits)

lemma str_encode_ascii: "\<forall>c \<in> set s. (of_char c :: nat) < 128 \<Longrightarrow> str_encode s = s"
  by (induction s) (simp_all add: str_encode_def encode_char_def)

text \<open>
  C8. For every non-empty password \<open>p\<close>, \<open>hash_password\<close> (150000 iterations of
  PBKDF2-HMAC-SHA256 over a salt of \<open>SALT_BYTES = 16\<close> random bytes) produces the
  three-field string \<open>iterations$salt_hex$hash_hex\<close>, and \<open>verify_password\<close> accepts \<open>p\<close>
  against it. The comparison is \<open>hmac.compare_digest\<close>; its timing is outside the model.
\<close>

theorem verify_hash_password:
  assumes "pw \<noteq> []"
    and "kdf (str_encode pw) (urandom SALT_BYTES) PBKDF2_ITERATIONS = Some dk"
  shows "\<exists>stored. hash_password kdf urandom pw PBKDF2_ITERATIONS = Inr stored
           \<and> stored = ''150000$'' @ bytes_hex (urandom 16) @ ''$'' @ bytes_hex dk
           \<and> str_split CHR ''$'' stored = [''150000'', bytes_hex (urandom 16), bytes_hex dk]
           \<and> verify_password kdf stored pw"
proof -
  let ?stored = "str_of_int PBKDF2_ITERATIONS @ ''$'' @ bytes_hex (urandom SALT_BYTES)
                   @ ''$'' @ bytes_hex dk"
  have h: "hash_password kdf urandom pw PBKDF2_ITERATIONS = Inr ?stored"
    using assms by (simp add: hash_password_def)
  have f: "str_split CHR ''$'' ?stored
             = [str_of_int PBKDF2_ITERATIONS, bytes_hex (urandom SALT_BYTES), bytes_hex dk]"
    using stored_fields [of PBKDF2_ITERATIONS "urandom SALT_BYTES" dk] by simp
  have v: "verify_password kdf ?stored pw"
    using verify_hash [of kdf pw "urandom SALT_BYTES" PBKDF2_ITERATIONS dk] assms(2) by simp
  have e: "?stored = ''150000$'' @ bytes_hex (urandom 16) @ ''$'' @ bytes_hex dk"
    by (simp add: iterations_str SALT_BYTES_def)
  show ?thesis
    using h f v unfolding e by (simp add: iterations_str SALT_BYTES_def)
qed

theorem verify_hash_password_witness:
  "\<exists>stored. hash_password example_kdf example_urandom ''hunter2'' PBKDF2_ITERATIONS = Inr stored
     \<and> stored = ''150000$'' @ bytes_hex (example_urandom 16) @ ''$''
                  @ bytes_hex (''hunter2'' @ example_urandom 16)
     \<and> str_split CHR ''$'' stored
          = [''150000'', bytes_hex (example_urandom 16),
             bytes_hex (''hunter2'' @ example_urandom 16)]
     \<and> verify_password example_kdf stored ''hunter2''"
proof -
  have e: "str_encode ''hunter2'' = ''hunter2''"
    by (rule str_encode_ascii) simp
  have k: "example_kdf (str_encode ''hunter2'') (example_urandom SALT_BYTES) PBKDF2_ITERATIONS
             = Some (''hunter2'' @ example_urandom 16)"
    by (simp add: example_kdf_def PBKDF2_ITERATIONS_def SALT_BYTES_def e)
  have n: "''hunter2'' \<noteq> []"
    by simp
  from verify_hash_password [where kdf = example_kdf and urandom = example_urandom, OF n k]
  show ?thesis .
qed

section \<open>Properties of the first-run bootstrap\<close>

lemma fresh_install_general:
  assumes k1: "kdf (str_encode ''admin'') (urandom_import SALT_BYTES) PBKDF2_ITERATIONS = Some dk_admin"
    and k2: "kdf (str_encode ''password'') (urandom_import SALT_BYTES) PBKDF2_ITERATIONS = Some dk_other"
    and ne: "dk_other \<noteq> dk_admin"
    and k3: "kdf (str_encode ''password'') (urandom_create SALT_BYTES) PBKDF2_ITERATIONS = Some dk_pw"
  shows "fst (ensure_fresh_installation kdf urandom_import urandom_create True fresh_state) = Fresh"
    and "map user_name (users_tbl (snd (ensure_fresh_installation kdf urandom_import urandom_create True fresh_state))) = [''admin'']"
    and "\<not> validate_user kdf ''admin'' ''password'' (users_tbl (snd (ensure_fresh_installation kdf urandom_import urandom_create True fresh_state)))"
    and "validate_user kdf ''admin'' ''admin'' (users_tbl (snd (ensure_fresh_installation kdf urandom_import urandom_create True fresh_state)))"
    and "marker_file (snd (ensure_fresh_installation kdf urandom_import urandom_create True fresh_state))
           = Some \<lparr>cred_username = ''admin'', cred_password = ''password'', admin_created = False\<rparr>"
proof -
  let ?H = "str_of_int PBKDF2_ITERATIONS @ ''$'' @ bytes_hex (urandom_import SALT_BYTES) @ ''$'' @ bytes_hex dk_admin"
  let ?row = "\<lparr>user_name = ''admin'', user_password = ?H, user_role = ''admin''\<rparr>"
  have h1: "hash_password kdf urandom_import ''admin'' PBKDF2_ITERATIONS = Inr ?H"
    using k1 by (simp add: hash_password_def)
  have h2: "\<exists>H2. hash_password kdf urandom_create ''password'' PBKDF2_ITERATIONS = Inr H2"
    using k3 by (simp add: hash_password_def)
  have imp: "import_security kdf urandom_import fresh_state
        = Inr \<lparr>marker_file = None, users_tbl = [?row], security_imported = True\<rparr>"
    by (simp add: import_security_def ensure_default_admin_def fresh_state_def h1)
  have cr: "create_user kdf urandom_create ''admin'' ''password'' ''admin''
              [\<lparr>user_name = ''admin'', user_password = H, user_role = ''admin''\<rparr>]
            = Inr (False, [\<lparr>user_name = ''admin'', user_password = H, user_role = ''admin''\<rparr>])"
    for H
    using h2 by (auto simp: create_user_def)
  have m: "marker_file fresh_state = None"
    by (simp add: fresh_state_def)
  have res: "ensure_fresh_installation kdf urandom_import urandom_create True fresh_state
     = (Fresh, \<lparr>marker_file = Some \<lparr>cred_username = ''admin'', cred_password = ''password'', admin_created = False\<rparr>,
                users_tbl = [?row], security_imported = True\<rparr>)"
    by (simp add: ensure_fresh_installation_def create_default_admin_def imp cr DEFAULT_ADMIN_def m)
  show "fst (ensure_fresh_installation kdf urandom_import urandom_create True fresh_state) = Fresh"
    by (simp add: res)
  show "map user_name (users_tbl (snd (ensure_fresh_installation kdf urandom_import urandom_create True fresh_state))) = [''admin'']"
    by (simp add: res)
  show "\<not> validate_user kdf ''admin'' ''password'' (users_tbl (snd (ensure_fresh_installation kdf urandom_import urandom_create True fresh_state)))"
    using verify_stored [of kdf PBKDF2_ITERATIONS "urandom_import SALT_BYTES" dk_admin "''password''"] k2 ne
    by (simp add: res validate_user_def)
  show "validate_user kdf ''admin'' ''admin'' (users_tbl (snd (ensure_fresh_installation kdf urandom_import urandom_create True fresh_state)))"
    using verify_stored [of kdf PBKDF2_ITERATIONS "urandom_import SALT_BYTES" dk_admin "''admin''"] k1
    by (simp add: res validate_user_def)
  show "marker_file (snd (ensure_fresh_installation kdf urandom_import urandom_create True fresh_state))
           = Some \<lparr>cred_username = ''admin'', cred_password = ''password'', admin_created = False\<rparr>"
    by (simp add: res)
qed

text \<open>
  C7. The claim is that a first run creates the account \<open>admin\<close> with the password
  \<open>password\<close>, so that \<open>validate_user("admin", "password")\<close> succeeds afterwards. The
  code breaks it: importing the credential module already creates \<open>admin\<close> with the
  password \<open>admin\<close>, \<open>create_user\<close> then finds the name taken, and after the bootstrap
  exactly one account exists, \<open>validate_user("admin", "password")\<close> fails,
  \<open>validate_user("admin", "admin")\<close> succeeds, and the marker file announces
  \<open>admin\<close>/\<open>password\<close> with \<open>admin_created\<close> false.
\<close>

theorem fresh_install_admin_password:
  "fst (ensure_fresh_installation example_kdf example_urandom example_urandom True fresh_state)
     = Fresh
   \<and> map user_name (users_tbl (snd (ensure_fresh_installation example_kdf example_urandom
                                       example_urandom True fresh_state))) = [''admin'']
   \<and> \<not> validate_user example_kdf ''admin'' ''password''
          (users_tbl (snd (ensure_fresh_installation example_kdf example_urandom
                             example_urandom True fresh_state)))
   \<and> validate_user example_kdf ''admin'' ''admin''
          (users_tbl (snd (ensure_fresh_installation example_kdf example_urandom
                             example_urandom True fresh_state)))
   \<and> marker_file (snd (ensure_fresh_installation example_kdf example_urandom example_urandom
                          True fresh_state))
       = Some \<lparr>cred_username = ''admin'', cred_password = ''password'',
                admin_created = False\<rparr>"
proof -
  have a: "str_encode ''admin'' = ''admin''" by (rule str_encode_ascii) simp
  have p: "str_encode ''password'' = ''password''" by (rule str_encode_ascii) simp
  have k1: "example_kdf (str_encode ''admin'') (example_urandom SALT_BYTES) PBKDF2_ITERATIONS
        = Some (''admin'' @ example_urandom SALT_BYTES)"
    by (simp add: example_kdf_def PBKDF2_ITERATIONS_def a)
  have k2: "example_kdf (str_encode ''password'') (example_urandom SALT_BYTES) PBKDF2_ITERATIONS
        = Some (''password'' @ example_urandom SALT_BYTES)"
    by (simp add: example_kdf_def PBKDF2_ITERATIONS_def p)
  have ne: "''password'' @ example_urandom SALT_BYTES \<noteq> ''admin'' @ example_urandom SALT_BYTES"
    by simp
  from fresh_install_general [where kdf = example_kdf and urandom_import = example_urandom
      and urandom_create = example_urandom, OF k1 k2 ne k2]
  show ?thesis by blast
qed


section \<open>Properties of the packet parsing helpers\<close>

lemma of_char_str_lower_char:
  "(of_char (str_lower_char c) :: nat) =
     (let n = of_char c
      in if (65 \<le> n \<and> n \<le> 90) \<or> (192 \<le> n \<and> n \<le> 222 \<and> n \<noteq> 215) then n + 32 else n)"
  by (auto simp: str_lower_char_def Let_def)

lemma str_lower_char_idem: "str_lower_char (str_lower_char c) = str_lower_char c"
proof -
  have "(of_char (str_lower_char (str_lower_char c)) :: nat) = of_char (str_lower_char c)"
    by (simp add: of_char_str_lower_char [of "str_lower_char c"] Let_def)
       (auto simp: of_char_str_lower_char Let_def)
  then show ?thesis by simp
qed

lemma str_lower_idem: "str_lower (str_lower s) = str_lower s"
  by (simp add: str_lower_def str_lower_char_idem)

lemma str_lower_char_colon: "str_lower_char c = CHR '':'' \<Longrightarrow> c = CHR '':''"
proof -
  assume a: "str_lower_char c = CHR '':''"
  have "(of_char (str_lower_char c) :: nat) = 58" by (simp add: a)
  then have "(of_char c :: nat) = 58"
    by (auto simp: of_char_str_lower_char Let_def split: if_splits)
  then have "(of_char c :: nat) = of_char CHR '':''" by simp
  then show ?thesis by (simp only: of_char_eq_iff)
qed

lemma startswith_host_colon:
  assumes "startswith (str_lower line) ''host:''"
  shows "CHR '':'' \<in> set line"
proof -
  from assms have "map str_lower_char (take (length ''host:'') line) = ''host:''"
    by (simp only: startswith_def str_lower_def take_map)
  then have "CHR '':'' \<in> set (map str_lower_char (take (length ''host:'') line))"
    by simp
  then obtain c where c: "c \<in> set (take (length ''host:'') line)" "str_lower_char c = CHR '':''"
    by auto
  from c(1) have "c \<in> set line" by (rule in_set_takeD)
  with str_lower_char_colon [OF c(2)] show ?thesis by simp
qed

lemma index_str_split_0: "index (str_split c s) 0 = Inr (takeWhile (\<lambda>x. x \<noteq> c) s)"
proof -
  have "\<exists>r. str_split c s = takeWhile (\<lambda>x. x \<noteq> c) s # r"
    by (induction s) (auto split: list.splits)
  then show ?thesis by (auto simp: index_def)
qed

lemma host_line_loop_cases:
  "host_line_loop lines = Inr None
   \<or> (\<exists>s. host_line_loop lines = Inr (Some (str_lower s)))"
proof (induction lines)
  case Nil
  then show ?case by simp
next
  case (Cons line lines)
  show ?case
  proof (cases "startswith (str_lower line) ''host:''")
    case True
    then have "CHR '':'' \<in> set line" by (rule startswith_host_colon)
    then have "\<exists>v. index (str_split1 CHR '':'' line) 1 = Inr v"
      by (simp add: str_split1_def index_def)
    then show ?thesis using True by (auto simp: index_str_split_0)
  next
    case False
    with Cons show ?thesis by simp
  qed
qed

lemma http_body_cases:
  "extract_http_host_body pl = Inr None
   \<or> (\<exists>s. extract_http_host_body pl = Inr (Some (str_lower s)))"
  using host_line_loop_cases [of "split_crlf pl"] by (auto simp: extract_http_host_body_def)

lemma sn_loop_cases:
  "(\<exists>e. sn_loop dec pl sn_end offset = Inl e)
   \<or> sn_loop dec pl sn_end offset = Inr None
   \<or> (\<exists>a b. sn_loop dec pl sn_end offset
         = Inr (Some (str_lower (takeWhile (\<lambda>x. x \<noteq> CHR '':'') (dec (slice pl a b))))))"
proof (induction dec pl sn_end offset rule: sn_loop.induct)
  case (1 dec pl sn_end offset)
  show ?case
  proof (cases "offset + 3 \<le> sn_end")
    case False
    then show ?thesis by (simp add: sn_loop.simps [of dec pl sn_end offset])
  next
    case True
    show ?thesis
    proof (cases "index pl offset")
      case (Inl e)
      with True show ?thesis by (simp add: sn_loop.simps [of dec pl sn_end offset])
    next
      case (Inr name_type)
      show ?thesis
      proof (cases "unpack_H (slice pl (offset + 1) (offset + 3))")
        case (Inl e)
        with True Inr show ?thesis by (simp add: sn_loop.simps [of dec pl sn_end offset])
      next
        case len: (Inr name_len)
        show ?thesis
        proof (cases "offset + 3 + name_len > sn_end")
          case True
          with \<open>offset + 3 \<le> sn_end\<close> Inr len show ?thesis
            by (simp add: sn_loop.simps [of dec pl sn_end offset])
        next
          case fits: False
          show ?thesis
          proof (cases "name_type = CHR 0x00")
            case True
            with \<open>offset + 3 \<le> sn_end\<close> Inr len fits show ?thesis
              by (auto simp: sn_loop.simps [of dec pl sn_end offset] index_str_split_0)
          next
            case False
            with \<open>offset + 3 \<le> sn_end\<close> Inr len fits
            have "sn_loop dec pl sn_end offset = sn_loop dec pl sn_end (offset + 3 + name_len)"
              by (simp add: sn_loop.simps [of dec pl sn_end offset])
            moreover note "1.IH" [OF \<open>offset + 3 \<le> sn_end\<close> Inr len _ False]
            ultimately show ?thesis using fits by simp
          qed
        qed
      qed
    qed
  qed
qed


lemma ext_loop_cases:
  "(\<exists>e. ext_loop dec pl end_ext offset = Inl e)
   \<or> ext_loop dec pl end_ext offset = Inr None
   \<or> (\<exists>a b. ext_loop dec pl end_ext offset
         = Inr (Some (str_lower (takeWhile (\<lambda>x. x \<noteq> CHR '':'') (dec (slice pl a b))))))"
proof (induction dec pl end_ext offset rule: ext_loop.induct)
  case (1 dec pl end_ext offset)
  show ?case
  proof (cases "offset + 4 \<le> end_ext")
    case False
    then show ?thesis by (simp add: ext_loop.simps [of dec pl end_ext offset])
  next
    case True
    show ?thesis
    proof (cases "unpack_H (slice pl offset (offset + 2))")
      case (Inl e)
      with True show ?thesis by (simp add: ext_loop.simps [of dec pl end_ext offset])
    next
      case (Inr ext_type)
      show ?thesis
      proof (cases "unpack_H (slice pl (offset + 2) (offset + 4))")
        case (Inl e)
        with True Inr show ?thesis by (simp add: ext_loop.simps [of dec pl end_ext offset])
      next
        case size: (Inr ext_size)
        show ?thesis
        proof (cases "ext_type = 0")
          case True
          with \<open>offset + 4 \<le> end_ext\<close> Inr size
            sn_loop_cases [of dec pl _ "offset + 4 + 2"]
          show ?thesis
            by (auto simp: ext_loop.simps [of dec pl end_ext offset] split: sum.splits)
        next
          case False
          with \<open>offset + 4 \<le> end_ext\<close> Inr size
          have "ext_loop dec pl end_ext offset = ext_loop dec pl end_ext (offset + 4 + ext_size)"
            by (simp add: ext_loop.simps [of dec pl end_ext offset])
          moreover note "1.IH" [OF \<open>offset + 4 \<le> end_ext\<close> Inr size False]
          ultimately show ?thesis by simp
        qed
      qed
    qed
  qed
qed

lemma tls_body_cases:
  "(\<exists>e. extract_tls_sni_body dec pl = Inl e)
   \<or> extract_tls_sni_body dec pl = Inr None
   \<or> (\<exists>a b. extract_tls_sni_body dec pl
         = Inr (Some (str_lower (takeWhile (\<lambda>x. x \<noteq> CHR '':'') (dec (slice pl a b))))))"
  using ext_loop_cases [of dec pl]
  by (simp add: extract_tls_sni_body_def Let_def split: sum.splits)


lemma prefix_bytes:
  "client_hello_prefix =
     [CHR 0x16, CHR 0x03, CHR 0x01, CHR 0x00, CHR 0x00, CHR 0x01, CHR 0x00, CHR 0x00, CHR 0x00,
      CHR 0x00, CHR 0x00, CHR 0x00, CHR 0x00, CHR 0x00, CHR 0x00, CHR 0x00, CHR 0x00, CHR 0x00,
      CHR 0x00, CHR 0x00, CHR 0x00, CHR 0x00, CHR 0x00, CHR 0x00, CHR 0x00, CHR 0x00, CHR 0x00,
      CHR 0x00, CHR 0x00, CHR 0x00, CHR 0x00, CHR 0x00, CHR 0x00, CHR 0x00, CHR 0x00, CHR 0x00,
      CHR 0x00, CHR 0x00, CHR 0x00, CHR 0x00, CHR 0x00, CHR 0x00, CHR 0x00, CHR 0x00, CHR 0x00,
      CHR 0x00, CHR 0x00]"
  by code_simp

lemma lower_example: "str_lower ''Example.COM'' = ''example.com''"
  by code_simp

lemma lower_short: "str_lower ''short.example'' = ''short.example''"
  by code_simp

lemma sni_hello_body: "extract_tls_sni_body (\<lambda>b. b) sni_hello = Inr (Some ''example.com'')"
  by (simp add: sni_hello_def prefix_bytes extract_tls_sni_body_def index_def unpack_H_def
      slice_def Let_def ext_loop.simps sn_loop.simps lower_example)

lemma overlong_list_hello_body: "extract_tls_sni_body (\<lambda>b. b) overlong_list_hello = Inl IndexError"
  by (simp add: overlong_list_hello_def prefix_bytes extract_tls_sni_body_def index_def unpack_H_def
      slice_def Let_def ext_loop.simps sn_loop.simps)

lemma overlong_name_hello_body: "extract_tls_sni_body (\<lambda>b. b) overlong_name_hello = Inr (Some ''short.example'')"
  by (simp add: overlong_name_hello_def prefix_bytes extract_tls_sni_body_def index_def unpack_H_def
      slice_def Let_def ext_loop.simps sn_loop.simps lower_short)

text \<open>
  C10. \<open>extract_http_host\<close> and \<open>extract_tls_sni\<close> are total on arbitrary payloads: both
  loops of the TLS parser terminate, the HTTP parser raises nothing at all, every
  exception raised inside the TLS parser (an index or an unpack beyond the payload)
  ends in \<open>None\<close>, and a returned host is lowercased. A returned server name is taken
  from a slice of the payload, which is cut at the payload's end.
\<close>

theorem extractors_total:
  "extract_http_host_body pl = Inr (extract_http_host pl)
   \<and> (extract_http_host pl = None
        \<or> (\<exists>h. extract_http_host pl = Some h \<and> str_lower h = h))
   \<and> (extract_tls_sni dec pl = None
        \<or> (\<exists>h a b. extract_tls_sni dec pl = Some h \<and> str_lower h = h
               \<and> h = str_lower (takeWhile (\<lambda>x. x \<noteq> CHR '':'') (dec (slice pl a b)))))
   \<and> (\<forall>e. extract_tls_sni_body dec pl = Inl e \<longrightarrow> extract_tls_sni dec pl = None)"
proof -
  have h1: "extract_http_host_body pl = Inr (extract_http_host pl)"
    using http_body_cases [of pl] by (auto simp: extract_http_host_def)
  have h2: "extract_http_host pl = None
        \<or> (\<exists>h. extract_http_host pl = Some h \<and> str_lower h = h)"
    using http_body_cases [of pl] by (auto simp: extract_http_host_def str_lower_idem)
  have t1: "extract_tls_sni dec pl = None
        \<or> (\<exists>h a b. extract_tls_sni dec pl = Some h \<and> str_lower h = h
               \<and> h = str_lower (takeWhile (\<lambda>x. x \<noteq> CHR '':'') (dec (slice pl a b))))"
  proof -
    from tls_body_cases [of dec pl] consider
      (raised) e where "extract_tls_sni_body dec pl = Inl e"
      | (none) "extract_tls_sni_body dec pl = Inr None"
      | (name) a b where "extract_tls_sni_body dec pl
          = Inr (Some (str_lower (takeWhile (\<lambda>x. x \<noteq> CHR '':'') (dec (slice pl a b)))))"
      by blast
    then show ?thesis
    proof cases
      case raised
      then show ?thesis by (simp add: extract_tls_sni_def)
    next
      case none
      then show ?thesis by (simp add: extract_tls_sni_def)
    next
      case name
      then have "extract_tls_sni dec pl
          = Some (str_lower (takeWhile (\<lambda>x. x \<noteq> CHR '':'') (dec (slice pl a b))))"
        by (simp add: extract_tls_sni_def)
      then show ?thesis using str_lower_idem by blast
    qed
  qed
  have t2: "\<forall>e. extract_tls_sni_body dec pl = Inl e \<longrightarrow> extract_tls_sni dec pl = None"
    by (simp add: extract_tls_sni_def)
  from h1 h2 t1 t2 show ?thesis by blast
qed

theorem extractors_total_witness:
  "extract_tls_sni_body (\<lambda>b. b) overlong_list_hello = Inl IndexError
   \<and> extract_tls_sni (\<lambda>b. b) overlong_list_hello = None"
  using extractors_total [of overlong_list_hello "\<lambda>b. b"] overlong_list_hello_body
  by simp

end
